theory Spec2Isabelle
  imports Main "HOL-Library.Sublist" "HOL-Library.List_Lexorder" "HOL-Library.Char_ord" "HOL-Library.Multiset"
begin

section \<open>Common data: identifiers, dictionaries, errors\<close>

text \<open>
  Query and document identifiers are Python strings. A Python \<open>dict\<close> whose iteration
  order matters (\<open>qid_to_docids.items()\<close>) is an association list in insertion order;
  a well-formed \<open>dict\<close> has distinct keys. Dictionaries that are only looked up
  (\<open>qrels\<close>, the extractor's tables) are maps.
\<close>

type_synonym qid = string
type_synonym docid = string
type_synonym ('k, 'v) pydict = "('k \<times> 'v) list"

datatype py_error =
    KeyError
  | IndexError
  | ValueError
  | AssertionError
  | RuntimeError
  | IOError
  | FileNotFoundError
  | IsADirectoryError
  | MissingDocError
  | ZeroDivisionError
  | UnpicklingError
  | Keys_mismatch "string list"

text \<open>
  \<open>Keys_mismatch missing\<close> is the RuntimeError that \<open>Reranker.load_weights\<close> raises
  with the message "loading state_dict with keys that do not match current model".
\<close>

text \<open>\<open>d[k]\<close>: raises KeyError when the key is absent.\<close>

definition dict_get :: "('k, 'v) pydict \<Rightarrow> 'k \<Rightarrow> py_error + 'v" where
  "dict_get d k = (case map_of d k of None \<Rightarrow> Inl KeyError | Some v \<Rightarrow> Inr v)"

text \<open>\<open>del d[k]\<close>: raises KeyError when the key is absent.\<close>

definition drop_key :: "'k \<Rightarrow> ('k, 'v) pydict \<Rightarrow> ('k, 'v) pydict" where
  "drop_key k d = filter (\<lambda>kv. fst kv \<noteq> k) d"

definition dict_del :: "('k, 'v) pydict \<Rightarrow> 'k \<Rightarrow> py_error + ('k, 'v) pydict" where
  "dict_del d k =
     (case map_of d k of
        None \<Rightarrow> Inl KeyError
      | Some _ \<Rightarrow> Inr (drop_key k d))"

text \<open>A comprehension whose element expression may raise: the first error aborts it.\<close>

fun traverse :: "('a \<Rightarrow> py_error + 'b) \<Rightarrow> 'a list \<Rightarrow> py_error + 'b list" where
  "traverse f [] = Inr []"
| "traverse f (x # xs) =
     (case f x of
        Inl e \<Rightarrow> Inl e
      | Inr y \<Rightarrow> (case traverse f xs of Inl e \<Rightarrow> Inl e | Inr ys \<Rightarrow> Inr (y # ys)))"

section \<open>Sampler (capreolus/sampler/__init__.py)\<close>

type_synonym qrels = "qid \<rightharpoonup> (docid \<rightharpoonup> int)"

record sampler =
  qid_to_docids :: "(qid, docid list) pydict"
  qid_to_reldocs :: "(qid, docid list) pydict"
  qid_to_negdocs :: "(qid, docid list) pydict"
  total_samples :: nat

text \<open>\<open>qrels[qid].get(docid, 0)\<close>; \<open>qrels[qid]\<close> raises KeyError for an unjudged query.\<close>

definition qrels_get :: "qrels \<Rightarrow> qid \<Rightarrow> py_error + (docid \<Rightarrow> int)" where
  "qrels_get qrels q =
     (case qrels q of
        None \<Rightarrow> Inl KeyError
      | Some j \<Rightarrow> Inr (\<lambda>d. case j d of None \<Rightarrow> 0 | Some g \<Rightarrow> g))"

definition reldocs_entry :: "qrels \<Rightarrow> int \<Rightarrow> qid \<times> docid list \<Rightarrow> py_error + (qid \<times> docid list)" where
  "reldocs_entry qrels relevance_level e =
     (case qrels_get qrels (fst e) of
        Inl err \<Rightarrow> Inl err
      | Inr g \<Rightarrow> Inr (fst e, filter (\<lambda>d. g d \<ge> relevance_level) (snd e)))"

definition negdocs_entry :: "qrels \<Rightarrow> int \<Rightarrow> qid \<times> docid list \<Rightarrow> py_error + (qid \<times> docid list)" where
  "negdocs_entry qrels relevance_level e =
     (case qrels_get qrels (fst e) of
        Inl err \<Rightarrow> Inl err
      | Inr g \<Rightarrow> Inr (fst e, filter (\<lambda>d. g d < relevance_level) (snd e)))"

text \<open>
  One pass of the loop body of \<open>Sampler.clean\<close>, on the sampler and the running
  \<open>total_samples\<close> local. The three \<open>del\<close> statements run in the source's order.
\<close>

definition clean_step :: "qid \<Rightarrow> sampler \<times> nat \<Rightarrow> py_error + (sampler \<times> nat)" where
  "clean_step q st =
     (let s = fst st; total = snd st in
      case dict_get (qid_to_reldocs s) q of
        Inl e \<Rightarrow> Inl e
      | Inr rel \<Rightarrow>
          (case dict_get (qid_to_negdocs s) q of
             Inl e \<Rightarrow> Inl e
           | Inr neg \<Rightarrow>
               (let posdocs = length rel; negdocs = length neg;
                    total' = total + posdocs * negdocs in
                if posdocs = 0 \<or> negdocs = 0 then
                  (case dict_del (qid_to_reldocs s) q of
                     Inl e \<Rightarrow> Inl e
                   | Inr r' \<Rightarrow>
                       (case dict_del (qid_to_docids s) q of
                          Inl e \<Rightarrow> Inl e
                        | Inr d' \<Rightarrow>
                            (case dict_del (qid_to_negdocs s) q of
                               Inl e \<Rightarrow> Inl e
                             | Inr n' \<Rightarrow>
                                 Inr (s\<lparr>qid_to_docids := d', qid_to_reldocs := r',
                                        qid_to_negdocs := n'\<rparr>, total'))))
                else Inr (s, total'))))"

fun clean_loop :: "qid list \<Rightarrow> sampler \<times> nat \<Rightarrow> py_error + (sampler \<times> nat)" where
  "clean_loop [] st = Inr st"
| "clean_loop (q # qs) st =
     (case clean_step q st of Inl e \<Rightarrow> Inl e | Inr st' \<Rightarrow> clean_loop qs st')"

text \<open>\<open>Sampler.clean\<close>: the loop runs over a snapshot of the keys, starting from 1.\<close>

definition clean :: "sampler \<Rightarrow> py_error + sampler" where
  "clean s =
     (case clean_loop (map fst (qid_to_docids s)) (s, 1) of
        Inl e \<Rightarrow> Inl e
      | Inr st \<Rightarrow> Inr ((fst st)\<lparr>total_samples := snd st\<rparr>))"

text \<open>\<open>Sampler.prepare\<close> (the extractor is stored and not used here).\<close>

definition prepare :: "(qid, docid list) pydict \<Rightarrow> qrels \<Rightarrow> int \<Rightarrow> py_error + sampler" where
  "prepare cands qrels relevance_level =
     (let kept = filter (\<lambda>e. qrels (fst e) \<noteq> None) cands in
      case traverse (reldocs_entry qrels relevance_level) kept of
        Inl e \<Rightarrow> Inl e
      | Inr rel \<Rightarrow>
          (case traverse (negdocs_entry qrels relevance_level) kept of
             Inl e \<Rightarrow> Inl e
           | Inr neg \<Rightarrow>
               clean \<lparr>qid_to_docids = kept, qid_to_reldocs = rel,
                      qid_to_negdocs = neg, total_samples = 0\<rparr>))"

text \<open>Auxiliary notions for stating the cleaning pass in closed form.\<close>

definition rel_of :: "sampler \<Rightarrow> qid \<Rightarrow> docid list" where
  "rel_of s q = (case map_of (qid_to_reldocs s) q of None \<Rightarrow> [] | Some r \<Rightarrow> r)"

definition neg_of :: "sampler \<Rightarrow> qid \<Rightarrow> docid list" where
  "neg_of s q = (case map_of (qid_to_negdocs s) q of None \<Rightarrow> [] | Some r \<Rightarrow> r)"

definition trainable :: "sampler \<Rightarrow> qid \<Rightarrow> bool" where
  "trainable s q = (rel_of s q \<noteq> [] \<and> neg_of s q \<noteq> [])"

definition keeps :: "qid list \<Rightarrow> sampler \<Rightarrow> qid \<times> docid list \<Rightarrow> bool" where
  "keeps ks s kv = (fst kv \<in> set ks \<longrightarrow> trainable s (fst kv))"

definition prune :: "qid list \<Rightarrow> sampler \<Rightarrow> sampler" where
  "prune ks s =
     s\<lparr>qid_to_docids := filter (keeps ks s) (qid_to_docids s),
       qid_to_reldocs := filter (keeps ks s) (qid_to_reldocs s),
       qid_to_negdocs := filter (keeps ks s) (qid_to_negdocs s)\<rparr>"

definition grade :: "qrels \<Rightarrow> qid \<Rightarrow> docid \<Rightarrow> int" where
  "grade qrels q d =
     (case qrels q of None \<Rightarrow> 0 | Some j \<Rightarrow> (case j d of None \<Rightarrow> 0 | Some g \<Rightarrow> g))"

definition rel_docs :: "qrels \<Rightarrow> int \<Rightarrow> qid \<times> docid list \<Rightarrow> docid list" where
  "rel_docs qrels lvl e = filter (\<lambda>d. grade qrels (fst e) d \<ge> lvl) (snd e)"

definition neg_docs :: "qrels \<Rightarrow> int \<Rightarrow> qid \<times> docid list \<Rightarrow> docid list" where
  "neg_docs qrels lvl e = filter (\<lambda>d. grade qrels (fst e) d < lvl) (snd e)"

definition retained :: "qrels \<Rightarrow> int \<Rightarrow> qid \<times> docid list \<Rightarrow> bool" where
  "retained qrels lvl e =
     (qrels (fst e) \<noteq> None \<and> rel_docs qrels lvl e \<noteq> [] \<and> neg_docs qrels lvl e \<noteq> [])"

definition demo_qrels :: qrels where
  "demo_qrels = [''q1'' \<mapsto> [''d1'' \<mapsto> 1, ''d2'' \<mapsto> 0], ''q2'' \<mapsto> [''d3'' \<mapsto> 1] ]"

definition demo_cands :: "(qid, docid list) pydict" where
  "demo_cands = [(''q1'', [''d1'', ''d2'']), (''q2'', [''d3'']), (''q3'', [''d1''])]"

section \<open>Sample generators (capreolus/sampler/__init__.py)\<close>

text \<open>
  The extractor is an injected dependency of the sampler: \<open>extractor.id2vec(qid, posid,
  negid, label)\<close> is a parameter that returns an instance or raises. A generator is
  modelled by the trace of a complete consumption: the events in order (an instance
  yielded, a line logged) and how the pass ended.
\<close>

type_synonym label = "nat list"
type_synonym 'i extractor = "qid \<Rightarrow> docid \<Rightarrow> docid option \<Rightarrow> label \<Rightarrow> py_error + 'i"

datatype 'i event =
    Yield 'i
  | Log_warning qid docid docid
  | Log_error qid docid

text \<open>The body of the \<open>try\<close> in \<open>PredSampler.generate_samples\<close>.\<close>

definition pred_sample :: "'i extractor \<Rightarrow> sampler \<Rightarrow> qid \<Rightarrow> docid \<Rightarrow> py_error + 'i" where
  "pred_sample ext s q d =
     (case dict_get (qid_to_reldocs s) q of
        Inl e \<Rightarrow> Inl e
      | Inr rel \<Rightarrow> if d \<in> set rel then ext q d None [0, 1] else ext q d None [1, 0])"

text \<open>
  The inner loop of \<open>PredSampler.generate_samples\<close>: a MissingDocError is logged and
  raised again; any other error propagates as it is.
\<close>

fun pred_docs :: "'i extractor \<Rightarrow> sampler \<Rightarrow> qid \<Rightarrow> docid list \<Rightarrow> 'i event list \<times> py_error option" where
  "pred_docs ext s q [] = ([], None)"
| "pred_docs ext s q (d # ds) =
     (case pred_sample ext s q d of
        Inl e \<Rightarrow> (if e = MissingDocError then ([Log_error q d], Some e) else ([], Some e))
      | Inr i \<Rightarrow> (Yield i # fst (pred_docs ext s q ds), snd (pred_docs ext s q ds)))"

fun pred_queries :: "'i extractor \<Rightarrow> sampler \<Rightarrow> (qid, docid list) pydict \<Rightarrow> 'i event list \<times> py_error option" where
  "pred_queries ext s [] = ([], None)"
| "pred_queries ext s (e # rest) =
     (case snd (pred_docs ext s (fst e) (snd e)) of
        Some err \<Rightarrow> (fst (pred_docs ext s (fst e) (snd e)), Some err)
      | None \<Rightarrow> (fst (pred_docs ext s (fst e) (snd e)) @ fst (pred_queries ext s rest),
                 snd (pred_queries ext s rest)))"

definition pred_generate_samples :: "'i extractor \<Rightarrow> sampler \<Rightarrow> 'i event list \<times> py_error option" where
  "pred_generate_samples ext s = pred_queries ext s (qid_to_docids s)"

text \<open>
  The \<open>random\<close> module is a parameter: a generator state \<open>'r\<close> with \<open>seed\<close>,
  \<open>shuffle\<close> and \<open>choice\<close>. \<open>random.choice\<close> raises IndexError on an empty
  sequence.
\<close>

record 'r random_module =
  rnd_seed :: "int \<Rightarrow> 'r"
  rnd_shuffle :: "'r \<Rightarrow> qid list \<Rightarrow> qid list \<times> 'r"
  rnd_choice :: "'r \<Rightarrow> docid list \<Rightarrow> docid \<times> 'r"

definition random_choice :: "'r random_module \<Rightarrow> 'r \<Rightarrow> docid list \<Rightarrow> py_error + (docid \<times> 'r)" where
  "random_choice R r xs = (if xs = [] then Inl IndexError else Inr (rnd_choice R r xs))"

text \<open>
  The draw of one triple in \<open>TrainTripletSampler.generate_samples\<close>: the positive is
  drawn before the negative.
\<close>

definition draw_triple :: "'r random_module \<Rightarrow> sampler \<Rightarrow> qid \<Rightarrow> 'r \<Rightarrow> py_error + (docid \<times> docid \<times> 'r)" where
  "draw_triple R s q r =
     (case dict_get (qid_to_reldocs s) q of
        Inl e \<Rightarrow> Inl e
      | Inr rel \<Rightarrow>
          (case random_choice R r rel of
             Inl e \<Rightarrow> Inl e
           | Inr pr \<Rightarrow>
               (case dict_get (qid_to_negdocs s) q of
                  Inl e \<Rightarrow> Inl e
                | Inr neg \<Rightarrow>
                    (case random_choice R (snd pr) neg of
                       Inl e \<Rightarrow> Inl e
                     | Inr nr \<Rightarrow> Inr (fst pr, fst nr, snd nr)))))"

text \<open>
  The \<open>for qid in all_qids\<close> loop: a MissingDocError from the extractor is logged as a
  warning and the loop goes on; any other error ends the generator.
\<close>

fun triplet_pass ::
  "'r random_module \<Rightarrow> 'i extractor \<Rightarrow> sampler \<Rightarrow> qid list \<Rightarrow> 'r \<Rightarrow> 'i event list \<times> (py_error + 'r)" where
  "triplet_pass R ext s [] r = ([], Inr r)"
| "triplet_pass R ext s (q # qs) r =
     (case draw_triple R s q r of
        Inl e \<Rightarrow> ([], Inl e)
      | Inr t \<Rightarrow>
          (case ext q (fst t) (Some (fst (snd t))) [1, 0] of
             Inl e \<Rightarrow>
               (if e = MissingDocError then
                  (Log_warning q (fst t) (fst (snd t)) # fst (triplet_pass R ext s qs (snd (snd t))),
                   snd (triplet_pass R ext s qs (snd (snd t))))
                else ([], Inl e))
           | Inr i \<Rightarrow>
               (Yield i # fst (triplet_pass R ext s qs (snd (snd t))),
                snd (triplet_pass R ext s qs (snd (snd t))))))"

text \<open>
  The \<open>while True\<close> loop, observed for a number of rounds: each round shuffles the
  list in place and makes one pass over it.
\<close>

fun triplet_rounds ::
  "nat \<Rightarrow> 'r random_module \<Rightarrow> 'i extractor \<Rightarrow> sampler \<Rightarrow> qid list \<Rightarrow> 'r \<Rightarrow> 'i event list \<times> py_error option" where
  "triplet_rounds 0 R ext s qids r = ([], None)"
| "triplet_rounds (Suc n) R ext s qids r =
     (let sh = rnd_shuffle R r qids in
      case snd (triplet_pass R ext s (fst sh) (snd sh)) of
        Inl e \<Rightarrow> (fst (triplet_pass R ext s (fst sh) (snd sh)), Some e)
      | Inr r' \<Rightarrow>
          (fst (triplet_pass R ext s (fst sh) (snd sh)) @ fst (triplet_rounds n R ext s (fst sh) r'),
           snd (triplet_rounds n R ext s (fst sh) r')))"

definition triplet_generate_samples ::
  "nat \<Rightarrow> 'r random_module \<Rightarrow> int \<Rightarrow> 'i extractor \<Rightarrow> sampler \<Rightarrow> 'i event list \<times> py_error option" where
  "triplet_generate_samples rounds R seed ext s =
     (let all_qids = sort (map fst (qid_to_reldocs s)) in
      if length all_qids = 0 then ([], Some RuntimeError)
      else triplet_rounds rounds R ext s all_qids (rnd_seed R seed))"

text \<open>Concrete collaborators for the examples: instances are the arguments of \<open>id2vec\<close>.\<close>

definition demo_ext :: "(qid \<times> docid \<times> docid option \<times> label) extractor" where
  "demo_ext q d n l = Inr (q, d, n, l)"

definition demo_sampler :: sampler where
  "demo_sampler =
     \<lparr>qid_to_docids = [(''q1'', [''d1'', ''d2''])],
      qid_to_reldocs = [(''q1'', [''d1''])],
      qid_to_negdocs = [(''q1'', [''d2''])],
      total_samples = 2\<rparr>"

text \<open>An extractor without features for document \<open>d2\<close>.\<close>

definition sparse_ext :: "(qid \<times> docid \<times> docid option \<times> label) extractor" where
  "sparse_ext q d n l =
     (if d = ''d2'' \<or> n = Some ''d2'' then Inl MissingDocError else Inr (q, d, n, l))"

text \<open>A deterministic stand-in for \<open>random\<close>: no shuffling, always the first element.\<close>

definition first_random :: "unit random_module" where
  "first_random =
     \<lparr>rnd_seed = (\<lambda>_. ()), rnd_shuffle = (\<lambda>r qs. (qs, r)), rnd_choice = (\<lambda>r xs. (hd xs, r))\<rparr>"

text \<open>The label and the trace the prediction sampler is expected to produce for one query.\<close>

definition pred_label :: "qrels \<Rightarrow> int \<Rightarrow> qid \<Rightarrow> docid \<Rightarrow> label" where
  "pred_label qrels lvl q d = (if grade qrels q d \<ge> lvl then [0, 1] else [1, 0])"

definition pred_events :: "(qid \<Rightarrow> docid \<Rightarrow> label \<Rightarrow> 'i) \<Rightarrow> qrels \<Rightarrow> int \<Rightarrow> qid \<times> docid list \<Rightarrow> 'i event list" where
  "pred_events inst qrels lvl e = map (\<lambda>d. Yield (inst (fst e) d (pred_label qrels lvl (fst e) d))) (snd e)"

definition demo_inst :: "qid \<Rightarrow> docid \<Rightarrow> label \<Rightarrow> qid \<times> docid \<times> docid option \<times> label" where
  "demo_inst q d l = (q, d, None, l)"

section \<open>BertPassage extractor (capreolus/extractor/bertpassage.py)\<close>

text \<open>
  The configuration options the passage code reads. They are counts and lengths, taken
  as natural numbers; what Python does at zero (a zero step of \<open>range\<close>) and below zero
  (the sample size \<open>numpassages - 2\<close>) is written out where it arises.
\<close>

record config =
  maxseqlen :: nat
  passagelen :: nat
  stride :: nat
  numpassages :: nat

type_synonym token = string
type_synonym passage = "token list"

definition pad_tok :: token where
  "pad_tok = ''[PAD]''"

definition cls_tok :: token where
  "cls_tok = ''[CLS]''"

definition sep_tok :: token where
  "sep_tok = ''[SEP]''"

text \<open>\<open>" ".join(words)\<close>\<close>

fun join_space :: "string list \<Rightarrow> string" where
  "join_space [] = []"
| "join_space [w] = w"
| "join_space (w # ws) = w @ '' '' @ join_space ws"

text \<open>\<open>range(0, stop, step)\<close> as a list; a zero step raises ValueError.\<close>

definition py_range :: "nat \<Rightarrow> nat \<Rightarrow> py_error + nat list" where
  "py_range stop step =
     (if step = 0 then Inl ValueError
      else Inr (map (\<lambda>k. k * step) [0 ..< (stop + step - 1) div step]))"

text \<open>
  The loop of \<open>get_passages_for_doc\<close> over the window starts, with the passages built
  so far. The tokenizer is an external collaborator. The first branch is the source's
  guard \<open>if i >= len(doc)\<close> with its assertion and \<open>break\<close>.
\<close>

fun passages_loop ::
  "config \<Rightarrow> (string \<Rightarrow> passage) \<Rightarrow> string list \<Rightarrow> nat list \<Rightarrow> passage list \<Rightarrow> py_error + passage list" where
  "passages_loop cfg tokenize doc [] passages = Inr passages"
| "passages_loop cfg tokenize doc (i # starts) passages =
     (if i \<ge> length doc then
        (if length passages > 0 then Inr passages else Inl AssertionError)
      else
        passages_loop cfg tokenize doc starts
          (passages @ [tokenize (join_space (take (passagelen cfg) (drop i doc)))]))"

text \<open>
  \<open>random.sample(population, k)\<close>: ValueError when \<open>k\<close> is negative or larger than the
  population; otherwise the library's draw, a parameter.
\<close>

definition random_sample :: "('a list \<Rightarrow> nat \<Rightarrow> 'a list) \<Rightarrow> 'a list \<Rightarrow> int \<Rightarrow> py_error + 'a list" where
  "random_sample sample population k =
     (if k < 0 \<or> int (length population) < k then Inl ValueError
      else Inr (sample population (nat k)))"

text \<open>\<open>passages[1:-1]\<close>\<close>

definition interior :: "'a list \<Rightarrow> 'a list" where
  "interior xs = butlast (tl xs)"

definition select_passages ::
  "config \<Rightarrow> (passage list \<Rightarrow> nat \<Rightarrow> passage list) \<Rightarrow> passage list \<Rightarrow> py_error + passage list" where
  "select_passages cfg sample passages =
     (let n_actual_passages = length passages in
      if n_actual_passages > numpassages cfg then
        (case passages of
           [] \<Rightarrow> Inl IndexError
         | first # _ \<Rightarrow>
             (case random_sample sample (interior passages) (int (numpassages cfg) - 2) of
                Inl e \<Rightarrow> Inl e
              | Inr middle \<Rightarrow> Inr ([first] @ middle @ [last passages])))
      else Inr (passages @ replicate (numpassages cfg - n_actual_passages) [pad_tok]))"

definition get_passages_for_doc ::
  "config \<Rightarrow> (string \<Rightarrow> passage) \<Rightarrow> (passage list \<Rightarrow> nat \<Rightarrow> passage list) \<Rightarrow> string list
     \<Rightarrow> py_error + passage list" where
  "get_passages_for_doc cfg tokenize sample doc =
     (case py_range (length doc) (stride cfg) of
        Inl e \<Rightarrow> Inl e
      | Inr starts \<Rightarrow>
          (case passages_loop cfg tokenize doc starts [] of
             Inl e \<Rightarrow> Inl e
           | Inr passages \<Rightarrow>
               (case select_passages cfg sample passages of
                  Inl e \<Rightarrow> Inl e
                | Inr selected \<Rightarrow>
                    if length selected = numpassages cfg then Inr selected
                    else Inl AssertionError)))"

text \<open>The configuration defaults of \<open>config_spec\<close>.\<close>

definition default_config :: config where
  "default_config = \<lparr>maxseqlen = 256, passagelen = 150, stride = 100, numpassages = 16\<rparr>"

subsection \<open>id2vec\<close>

text \<open>
  Modelled from the spec: \<open>capreolus.utils.common.padlist\<close> is not among the sources;
  the specification says the sequence is "right-padded to maxseqlen" with the pad token.
\<close>

definition padlist :: "'a list \<Rightarrow> nat \<Rightarrow> 'a \<Rightarrow> 'a list" where
  "padlist list_to_pad padlen pad_token =
     take padlen list_to_pad @ replicate (padlen - length list_to_pad) pad_token"

type_synonym tensor = "int list list"

record extractor_state =
  qid2toks :: "qid \<rightharpoonup> token list"
  docid2passages :: "docid \<rightharpoonup> passage list"

text \<open>The untruncated sequence of one passage.\<close>

definition raw_input_line :: "token list \<Rightarrow> passage \<Rightarrow> token list" where
  "raw_input_line query_toks tokenized_passage =
     [cls_tok] @ query_toks @ [sep_tok] @ tokenized_passage @ [sep_tok]"

text \<open>
  Truncation: \<open>input_line = input_line[:maxseqlen]; input_line[-1] = "[SEP]"\<close>. The
  assignment raises IndexError on an empty list.
\<close>

definition truncate_line :: "nat \<Rightarrow> token list \<Rightarrow> py_error + token list" where
  "truncate_line n input_line =
     (if length input_line > n then
        (if take n input_line = [] then Inl IndexError
         else Inr (butlast (take n input_line) @ [sep_tok]))
      else Inr input_line)"

text \<open>One pass of the passage loop of \<open>id2vec\<close>: the token ids, the mask and the segments.\<close>

definition encode_passage ::
  "config \<Rightarrow> (token \<Rightarrow> int) \<Rightarrow> token list \<Rightarrow> passage \<Rightarrow> py_error + (int list \<times> int list \<times> int list)" where
  "encode_passage cfg tok_id query_toks tokenized_passage =
     (case truncate_line (maxseqlen cfg) (raw_input_line query_toks tokenized_passage) of
        Inl e \<Rightarrow> Inl e
      | Inr input_line \<Rightarrow>
          (let padded_input_line = padlist input_line (maxseqlen cfg) pad_tok in
           Inr (map tok_id padded_input_line,
                replicate (length input_line) 1
                  @ replicate (length padded_input_line - length input_line) 0,
                replicate (length query_toks + 2) 0
                  @ replicate (length padded_input_line - length query_toks - 2) 1)))"

record features =
  posdocid :: docid
  posdoc :: tensor
  posdoc_mask :: tensor
  posdoc_seg :: tensor
  negdocid :: docid
  negdoc :: tensor
  negdoc_mask :: tensor
  negdoc_seg :: tensor
  label_rows :: "label list"

text \<open>\<open>np.zeros((rows, cols))\<close>\<close>

definition zeros :: "nat \<Rightarrow> nat \<Rightarrow> tensor" where
  "zeros rows cols = replicate rows (replicate cols 0)"

text \<open>
  \<open>id2vec\<close>. \<open>if negid:\<close> holds for a non-empty string only, so \<open>None\<close> and the
  empty string both leave the zero tensors in place.
\<close>

definition id2vec ::
  "config \<Rightarrow> (token \<Rightarrow> int) \<Rightarrow> extractor_state \<Rightarrow> qid \<Rightarrow> docid \<Rightarrow> docid option \<Rightarrow> label option
     \<Rightarrow> py_error + features" where
  "id2vec cfg tok_id st qid posid negid label =
     (case label of
        None \<Rightarrow> Inl AssertionError
      | Some lab \<Rightarrow>
     (case qid2toks st qid of
        None \<Rightarrow> Inl KeyError
      | Some query_toks \<Rightarrow>
     (case docid2passages st posid of
        None \<Rightarrow> Inl KeyError
      | Some pos_passages \<Rightarrow>
     (case traverse (encode_passage cfg tok_id query_toks) pos_passages of
        Inl e \<Rightarrow> Inl e
      | Inr pos \<Rightarrow>
          (let data = \<lparr>posdocid = posid,
                       posdoc = map fst pos,
                       posdoc_mask = map (fst \<circ> snd) pos,
                       posdoc_seg = map (snd \<circ> snd) pos,
                       negdocid = [],
                       negdoc = zeros (numpassages cfg) (maxseqlen cfg),
                       negdoc_mask = zeros (numpassages cfg) (maxseqlen cfg),
                       negdoc_seg = zeros (numpassages cfg) (maxseqlen cfg),
                       label_rows = replicate (numpassages cfg) lab\<rparr> in
           case negid of
             None \<Rightarrow> Inr data
           | Some neg_id \<Rightarrow>
               if neg_id = [] then Inr data
               else
                 (case docid2passages st neg_id of
                    None \<Rightarrow> Inl KeyError
                  | Some neg_passages \<Rightarrow>
                      (case traverse (encode_passage cfg tok_id query_toks) neg_passages of
                         Inl e \<Rightarrow> Inl e
                       | Inr neg \<Rightarrow>
                           if neg = [] then Inl MissingDocError
                           else Inr (data\<lparr>negdocid := neg_id,
                                          negdoc := map fst neg,
                                          negdoc_mask := map (fst \<circ> snd) neg,
                                          negdoc_seg := map (snd \<circ> snd) neg\<rparr>))))))))"

section \<open>KerasModel.call (capreolus/reranker/base.py)\<close>

text \<open>\<open>tf.math.count_nonzero\<close>\<close>

definition count_nonzero :: "tensor \<Rightarrow> nat" where
  "count_nonzero t = length (filter (\<lambda>v. v \<noteq> 0) (concat t))"

datatype 'sc scored = Score_pos 'sc | Score_pos_and_neg 'sc 'sc

text \<open>
  \<open>x\<close> is the sequence of input tensors (\<open>posdoc, negdoc, query\<close> and the
  additional ones), \<open>model\<close> the wrapped scorer applied to \<open>(doc, query) + additional\<close>.
\<close>

definition keras_call :: "(tensor list \<Rightarrow> 'sc) \<Rightarrow> tensor list \<Rightarrow> py_error + 'sc scored" where
  "keras_call model x =
     (case x of
        pos # neg # query # additional \<Rightarrow>
          if count_nonzero neg = 0 then Inr (Score_pos (model (pos # query # additional)))
          else Inr (Score_pos_and_neg (model (pos # query # additional))
                                      (model (neg # query # additional)))
      | _ \<Rightarrow> Inl IndexError)"

text \<open>
  The real passages of a document: one window per start \<open>0, stride, 2 * stride, ...\<close>
  below the document's length.
\<close>

definition window :: "config \<Rightarrow> (string \<Rightarrow> passage) \<Rightarrow> string list \<Rightarrow> nat \<Rightarrow> passage" where
  "window cfg tokenize doc i = tokenize (join_space (take (passagelen cfg) (drop i doc)))"

definition window_starts :: "config \<Rightarrow> string list \<Rightarrow> nat list" where
  "window_starts cfg doc =
     map (\<lambda>k. k * stride cfg) [0 ..< (length doc + stride cfg - 1) div stride cfg]"

definition real_passages :: "config \<Rightarrow> (string \<Rightarrow> passage) \<Rightarrow> string list \<Rightarrow> passage list" where
  "real_passages cfg tokenize doc = map (window cfg tokenize doc) (window_starts cfg doc)"

text \<open>
  What \<open>random.sample\<close> promises: \<open>k\<close> elements of the population, drawn without
  replacement.
\<close>

definition sample_contract :: "('a list \<Rightarrow> nat \<Rightarrow> 'a list) \<Rightarrow> bool" where
  "sample_contract sample =
     (\<forall>population k. k \<le> length population \<longrightarrow>
        length (sample population k) = k \<and> mset (sample population k) \<subseteq># mset population)"

text \<open>Stand-ins for the examples: a tokenizer that keeps the text whole, a draw of the first \<open>k\<close>.\<close>

definition whole_tokenize :: "string \<Rightarrow> passage" where
  "whole_tokenize text = [text]"

definition first_sample :: "'a list \<Rightarrow> nat \<Rightarrow> 'a list" where
  "first_sample population k = take k population"

definition small_config :: config where
  "small_config = \<lparr>maxseqlen = 8, passagelen = 4, stride = 2, numpassages = 3\<rparr>"

text \<open>
  The sequence of one passage as the specification describes it: the untruncated
  sequence, cut to \<open>maxseqlen\<close> with a final separator when it is longer, then padded
  on the right.
\<close>

definition truncated_line :: "nat \<Rightarrow> token list \<Rightarrow> passage \<Rightarrow> token list" where
  "truncated_line n query_toks p =
     (if length (raw_input_line query_toks p) > n
      then butlast (take n (raw_input_line query_toks p)) @ [sep_tok]
      else raw_input_line query_toks p)"

definition padded_line :: "nat \<Rightarrow> token list \<Rightarrow> passage \<Rightarrow> token list" where
  "padded_line n query_toks p =
     truncated_line n query_toks p @ replicate (n - length (truncated_line n query_toks p)) pad_tok"

text \<open>A tensor of shape \<open>[rows, cols]\<close>.\<close>

definition has_shape :: "tensor \<Rightarrow> nat \<Rightarrow> nat \<Rightarrow> bool" where
  "has_shape t rows cols = (length t = rows \<and> list_all (\<lambda>row. length row = cols) t)"

text \<open>Stand-ins for the examples.\<close>

definition demo_tok_id :: "token \<Rightarrow> int" where
  "demo_tok_id t = (if t = ''[PAD]'' then 0 else if t = ''[CLS]'' then 101 else if t = ''[SEP]'' then 102 else 7)"

definition tiny_config :: config where
  "tiny_config = \<lparr>maxseqlen = 4, passagelen = 4, stride = 2, numpassages = 1\<rparr>"

definition tiny_state :: extractor_state where
  "tiny_state =
     \<lparr>qid2toks = [''q1'' \<mapsto> [''a'', ''b'', ''c''], ''q2'' \<mapsto> [''a''] ],
      docid2passages = [''d1'' \<mapsto> [ [''x''] ], ''d2'' \<mapsto> [ [''y'', ''z''] ] ]\<rparr>"

text \<open>The three rows \<open>id2vec\<close> builds for one passage when \<open>maxseqlen\<close> is positive.\<close>

definition ids_row :: "(token \<Rightarrow> int) \<Rightarrow> nat \<Rightarrow> token list \<Rightarrow> passage \<Rightarrow> int list" where
  "ids_row tok_id n query_toks p = map tok_id (padded_line n query_toks p)"

definition mask_row :: "nat \<Rightarrow> token list \<Rightarrow> passage \<Rightarrow> int list" where
  "mask_row n query_toks p =
     replicate (min (length (raw_input_line query_toks p)) n) 1
       @ replicate (n - min (length (raw_input_line query_toks p)) n) 0"

definition seg_row :: "nat \<Rightarrow> token list \<Rightarrow> passage \<Rightarrow> int list" where
  "seg_row n query_toks p =
     replicate (length query_toks + 2) 0 @ replicate (n - length query_toks - 2) 1"

definition encoded :: "(token \<Rightarrow> int) \<Rightarrow> nat \<Rightarrow> token list \<Rightarrow> passage \<Rightarrow> int list \<times> int list \<times> int list" where
  "encoded tok_id n query_toks p =
     (ids_row tok_id n query_toks p, mask_row n query_toks p, seg_row n query_toks p)"

definition demo_config :: config where
  "demo_config = \<lparr>maxseqlen = 8, passagelen = 4, stride = 2, numpassages = 1\<rparr>"

definition demo_model :: "tensor list \<Rightarrow> int" where
  "demo_model x = sum_list (concat (concat x))"

section \<open>Reranker weights (capreolus/reranker/base.py)\<close>

text \<open>
  The file system: a relative path is its list of components, the empty list being the
  empty string (for \<open>os.path\<close>) or the current directory (for \<open>pathlib\<close>). A file holds
  a pickled object or lines of text; the pickled objects of this code are weights
  dictionaries and optimizer states, and \<open>pickle.load\<close> returns either kind without
  checking it. Directories are a set of paths. Failures of the operating system on a
  write (permissions, a full disk, a directory standing where the file is to be written or
  a file where its directory is to be) are not modelled.
\<close>

type_synonym path = "string list"

datatype ('v, 'os) pickled =
    Weights "(string, 'v) pydict"
  | Optimizer_state 'os

datatype ('v, 'os) content =
    Pickle "('v, 'os) pickled"
  | Text "string list"

record ('v, 'os) filesystem =
  fs_files :: "path \<rightharpoonup> ('v, 'os) content"
  fs_dirs :: "path set"

text \<open>\<open>Path.exists()\<close>\<close>

definition path_exists :: "('v, 'os) filesystem \<Rightarrow> path \<Rightarrow> bool" where
  "path_exists fs p = (fs_files fs p \<noteq> None \<or> p \<in> fs_dirs fs)"

text \<open>\<open>os.path.exists\<close> on the string form: the empty string names nothing.\<close>

definition os_path_exists :: "('v, 'os) filesystem \<Rightarrow> path \<Rightarrow> bool" where
  "os_path_exists fs p = (p \<noteq> [] \<and> path_exists fs p)"

text \<open>\<open>os.path.dirname\<close>: of a bare file name it is the empty string.\<close>

definition dirname :: "path \<Rightarrow> path" where
  "dirname p = butlast p"

text \<open>\<open>os.makedirs\<close>: of the empty string it raises FileNotFoundError.\<close>

definition makedirs :: "('v, 'os) filesystem \<Rightarrow> path \<Rightarrow> py_error + ('v, 'os) filesystem" where
  "makedirs fs p =
     (if p = [] then Inl FileNotFoundError
      else Inr (fs\<lparr>fs_dirs := fs_dirs fs \<union> (set (prefixes p) - {[]})\<rparr>))"

definition write_file :: "('v, 'os) filesystem \<Rightarrow> path \<Rightarrow> ('v, 'os) content \<Rightarrow> ('v, 'os) filesystem" where
  "write_file fs p c = fs\<lparr>fs_files := (fs_files fs)(p \<mapsto> c)\<rparr>"



text \<open>\<open>weights_fn.as_posix() + ".optimizer"\<close>\<close>

definition optimizer_fn :: "path \<Rightarrow> path" where
  "optimizer_fn weights_fn =
     (case rev weights_fn of
        [] \<Rightarrow> [''.optimizer'']
      | name # parent \<Rightarrow> rev parent @ [name @ ''.optimizer''])"

text \<open>
  The deep-learning library is a parameter: the model's and the optimizer's
  \<open>state_dict\<close> and \<open>load_state_dict\<close>, and the keys of the dictionary that an
  optimizer's \<open>state_dict\<close> is. \<open>load_state_dict\<close> is handed whatever was unpickled; it
  may raise, and returns the state it leaves behind.
\<close>

record ('m, 'o, 'v, 'os) torch =
  state_dict :: "'m \<Rightarrow> (string, 'v) pydict"
  load_state_dict :: "'m \<Rightarrow> ('v, 'os) pickled \<Rightarrow> py_error option \<times> 'm"
  opt_state_dict :: "'o \<Rightarrow> 'os"
  opt_state_keys :: "'os \<Rightarrow> string list"
  opt_load_state_dict :: "'o \<Rightarrow> ('v, 'os) pickled \<Rightarrow> py_error option \<times> 'o"


text \<open>The keys that are never persisted: \<open>"embedding.weight" in k or "_nosave_" in k\<close>.\<close>

definition unpersisted :: "string \<Rightarrow> bool" where
  "unpersisted k = (sublist ''embedding.weight'' k \<or> sublist ''_nosave_'' k)"

text \<open>
  \<open>Reranker.save_weights\<close>: the directory is created when \<open>os.path.exists\<close> does not
  find it, then the two files are written.
\<close>

definition save_weights ::
  "('m, 'o, 'v, 'os) torch \<Rightarrow> ('v, 'os) filesystem \<Rightarrow> 'm \<Rightarrow> 'o \<Rightarrow> path
     \<Rightarrow> py_error + ('v, 'os) filesystem" where
  "save_weights T fs m opt weights_fn =
     (case (if \<not> os_path_exists fs (dirname weights_fn) then makedirs fs (dirname weights_fn)
            else Inr fs) of
        Inl e \<Rightarrow> Inl e
      | Inr fs1 \<Rightarrow>
          (let d = filter (\<lambda>kv. \<not> unpersisted (fst kv)) (state_dict T m);
               fs2 = write_file fs1 weights_fn (Pickle (Weights d))
           in Inr (write_file fs2 (optimizer_fn weights_fn)
                     (Pickle (Optimizer_state (opt_state_dict T opt))))))"




text \<open>
  A stand-in for the library in the examples: a model is its state dict,
  \<open>load_state_dict(strict=False)\<close> overwrites the entries the unpickled dict has and
  ignores the others, an optimizer is its state.
\<close>

definition plain_load :: "(string, 'v) pydict \<Rightarrow> (string, 'v) pydict \<Rightarrow> (string, 'v) pydict" where
  "plain_load m d = map (\<lambda>kv. (fst kv, case map_of d (fst kv) of None \<Rightarrow> snd kv | Some v \<Rightarrow> v)) m"

definition plain_torch :: "((string, 'v) pydict, 'os, 'v, 'os) torch" where
  "plain_torch =
     \<lparr>state_dict = (\<lambda>m. m),
      load_state_dict =
        (\<lambda>m obj. case obj of Weights d \<Rightarrow> (None, plain_load m d) | Optimizer_state _ \<Rightarrow> (None, m)),
      opt_state_dict = (\<lambda>opt. opt),
      opt_state_keys = (\<lambda>_. [''state'', ''param_groups'']),
      opt_load_state_dict =
        (\<lambda>opt obj. case obj of Optimizer_state os \<Rightarrow> (None, os) | Weights _ \<Rightarrow> (Some KeyError, opt))\<rparr>"

definition demo_torch :: "((string, nat) pydict, nat, nat, nat) torch" where
  "demo_torch = plain_torch"

definition empty_fs :: "('v, 'os) filesystem" where
  "empty_fs = \<lparr>fs_files = Map.empty, fs_dirs = {}\<rparr>"








section \<open>PytorchTrainer (capreolus/trainer/__init__.py)\<close>

text \<open>
  Python's conversions between numbers and text are a parameter: \<open>int(s)\<close> and
  \<open>float(s)\<close> (\<open>None\<close> where they raise ValueError) and the formatting of an integer
  and of a loss value in an f-string. \<open>'l\<close> is the type of loss values.
\<close>

record 'l builtins =
  py_int :: "string \<Rightarrow> int option"
  py_float :: "string \<Rightarrow> 'l option"
  fmt_int :: "int \<Rightarrow> string"
  fmt_float :: "'l \<Rightarrow> string"









subsection \<open>The training loop\<close>

text \<open>
  A float that may be \<open>-inf\<close>: the initial value of \<open>dev_best_metric\<close> and of the
  callback's \<open>best_metric\<close>. Metric values are of any linearly ordered type.
\<close>

datatype 'a best = Neg_inf | Best 'a

fun exceeds :: "'a::linorder \<Rightarrow> 'a best \<Rightarrow> bool" where
  "exceeds v Neg_inf = True"
| "exceeds v (Best b) = (b < v)"

text \<open>
  What the loop calls outside the trainer: one training iteration (new model, new
  optimizer, mean loss) and the validation run (\<open>predict\<close> followed by
  \<open>evaluator.eval_runs\<close>, the metrics by name). The run file, the summary writer and the
  logger are not modelled.
\<close>

record ('m, 'o, 'l, 'a) collaborators =
  single_train_iteration :: "'m \<Rightarrow> 'o \<Rightarrow> ('m \<times> 'o) \<times> 'l"
  dev_metrics :: "nat \<Rightarrow> 'm \<Rightarrow> (string \<rightharpoonup> 'a)"

record train_paths =
  dev_best_weight_fn :: path
  weights_output_path :: path
  loss_fn :: path

record ('m, 'o, 'v, 'os, 'l, 'a) train_state =
  ts_model :: 'm
  ts_optimizer :: 'o
  ts_fs :: "('v, 'os) filesystem"
  train_loss :: "'l list"
  dev_best_metric :: "'a best"

text \<open>\<open>"\n".join(f"{idx} {loss}" for idx, loss in enumerate(train_loss))\<close>, as lines.\<close>

definition loss_text :: "'l builtins \<Rightarrow> 'l list \<Rightarrow> string list" where
  "loss_text B losses =
     map (\<lambda>p. fmt_int B (int (fst p)) @ '' '' @ fmt_float B (snd p)) (enumerate 0 losses)"

text \<open>
  The body of \<open>for niter in range(initial_iter, niters)\<close> in \<open>PytorchTrainer.train\<close>.
  \<open>dev_best_metric\<close> is read in the comparison and assigned nowhere in the loop.
\<close>

definition train_iteration ::
  "('m, 'o, 'v, 'os) torch \<Rightarrow> 'l builtins \<Rightarrow> ('m, 'o, 'l, 'a::linorder) collaborators \<Rightarrow> nat \<Rightarrow> train_paths
     \<Rightarrow> string \<Rightarrow> nat \<Rightarrow> ('m, 'o, 'v, 'os, 'l, 'a) train_state
     \<Rightarrow> py_error + ('m, 'o, 'v, 'os, 'l, 'a) train_state" where
  "train_iteration T B E validation_frequency paths metric niter st =
     (let r = single_train_iteration E (ts_model st) (ts_optimizer st);
          m = fst (fst r); opt = snd (fst r);
          losses = train_loss st @ [snd r];
          weights_fn = weights_output_path paths @ [fmt_int B (int niter) @ ''.p'']
      in case save_weights T (ts_fs st) m opt weights_fn of
           Inl e \<Rightarrow> Inl e
         | Inr fs1 \<Rightarrow>
             if validation_frequency = 0 then Inl ZeroDivisionError
             else
               (case (if niter mod validation_frequency = 0 then
                        (case dev_metrics E niter m metric of
                           None \<Rightarrow> Inl KeyError
                         | Some v \<Rightarrow>
                             if exceeds v (dev_best_metric st)
                             then save_weights T fs1 m opt (dev_best_weight_fn paths)
                             else Inr fs1)
                      else Inr fs1) of
                  Inl e \<Rightarrow> Inl e
                | Inr fs2 \<Rightarrow>
                    Inr (st\<lparr>ts_model := m, ts_optimizer := opt,
                            ts_fs := write_file fs2 (loss_fn paths) (Text (loss_text B losses)),
                            train_loss := losses\<rparr>)))"

fun train_loop ::
  "('m, 'o, 'v, 'os) torch \<Rightarrow> 'l builtins \<Rightarrow> ('m, 'o, 'l, 'a::linorder) collaborators \<Rightarrow> nat \<Rightarrow> train_paths
     \<Rightarrow> string \<Rightarrow> nat list \<Rightarrow> ('m, 'o, 'v, 'os, 'l, 'a) train_state
     \<Rightarrow> py_error + ('m, 'o, 'v, 'os, 'l, 'a) train_state" where
  "train_loop T B E vf paths metric [] st = Inr st"
| "train_loop T B E vf paths metric (niter # rest) st =
     (case train_iteration T B E vf paths metric niter st of
        Inl e \<Rightarrow> Inl e
      | Inr st' \<Rightarrow> train_loop T B E vf paths metric rest st')"

text \<open>
  Lines 251 to 287 of \<open>train\<close>: \<open>dev_best_metric = -np.inf\<close>, then the loop from
  \<open>initial_iter\<close> to \<open>niters\<close>.
\<close>

definition train_from ::
  "('m, 'o, 'v, 'os) torch \<Rightarrow> 'l builtins \<Rightarrow> ('m, 'o, 'l, 'a::linorder) collaborators \<Rightarrow> nat \<Rightarrow> nat \<Rightarrow> train_paths
     \<Rightarrow> string \<Rightarrow> nat \<Rightarrow> ('m, 'o, 'v, 'os, 'l, 'a) train_state
     \<Rightarrow> py_error + ('m, 'o, 'v, 'os, 'l, 'a) train_state" where
  "train_from T B E niters vf paths metric initial_iter st =
     train_loop T B E vf paths metric [initial_iter ..< niters] (st\<lparr>dev_best_metric := Neg_inf\<rparr>)"

subsection \<open>TrecCheckpointCallback\<close>

text \<open>
  The callback's state: \<open>best_metric\<close> and what \<open>save_model\<close> last wrote to
  \<open>dev.best\<close>, if anything.
\<close>

record ('a, 'm) callback =
  best_metric :: "'a best"
  dev_best :: "'m option"

definition on_epoch_end ::
  "('a::linorder, 'm) callback \<Rightarrow> 'm \<Rightarrow> (string \<rightharpoonup> 'a) \<Rightarrow> py_error + ('a, 'm) callback" where
  "on_epoch_end cb model metrics =
     (case metrics ''ndcg_cut_20'' of
        None \<Rightarrow> Inl KeyError
      | Some v \<Rightarrow>
          if exceeds v (best_metric cb)
          then Inr (cb\<lparr>best_metric := Best v, dev_best := Some model\<rparr>)
          else Inr cb)"




text \<open>
  Stand-ins for the conversions in the examples: decimal digits for integers, and loss
  values that are natural numbers.
\<close>

definition digit_of :: "char \<Rightarrow> nat option" where
  "digit_of c = map_of (zip ''0123456789'' [0, 1, 2, 3, 4, 5, 6, 7, 8, 9]) c"

fun parse_digits :: "nat \<Rightarrow> string \<Rightarrow> nat option" where
  "parse_digits acc [] = Some acc"
| "parse_digits acc (c # cs) =
     (case digit_of c of None \<Rightarrow> None | Some d \<Rightarrow> parse_digits (10 * acc + d) cs)"

definition parse_dec :: "string \<Rightarrow> nat option" where
  "parse_dec s = (if s = [] then None else parse_digits 0 s)"

function show_nat :: "nat \<Rightarrow> string" where
  "show_nat n =
     (if n < 10 then [''0123456789'' ! n]
      else show_nat (n div 10) @ [''0123456789'' ! (n mod 10)])"
  by pat_completeness auto
termination
  by (relation "measure id") auto

definition show_int :: "int \<Rightarrow> string" where
  "show_int i = (if i < 0 then ''-'' @ show_nat (nat (- i)) else show_nat (nat i))"

definition demo_builtins :: "nat builtins" where
  "demo_builtins =
     \<lparr>py_int = (\<lambda>s. map_option int (parse_dec s)),
      py_float = parse_dec,
      fmt_int = show_int,
      fmt_float = show_nat\<rparr>"




text \<open>
  A run for the examples: each iteration adds one to every weight; the validation metric
  \<open>map\<close> is 5 at iteration 0 and 3 afterwards.
\<close>

definition demo_collaborators :: "((string, nat) pydict, nat, nat, nat) collaborators" where
  "demo_collaborators =
     \<lparr>single_train_iteration = (\<lambda>m opt. ((map (\<lambda>kv. (fst kv, snd kv + 1)) m, opt + 1), 0)),
      dev_metrics = (\<lambda>niter m. [''map'' \<mapsto> (if niter = 0 then 5 else 3)])\<rparr>"

definition demo_paths :: train_paths where
  "demo_paths =
     \<lparr>dev_best_weight_fn = [''run'', ''dev.best''],
      weights_output_path = [''run'', ''weights''],
      loss_fn = [''run'', ''info'', ''loss.txt'']\<rparr>"

definition demo_start :: "((string, nat) pydict, nat, nat, nat, nat, nat) train_state" where
  "demo_start =
     \<lparr>ts_model = [(''w'', 0)], ts_optimizer = 0, ts_fs = empty_fs, train_loss = [],
      dev_best_metric = Neg_inf\<rparr>"

section \<open>Sampler: the cleaning pass\<close>

lemma traverse_map:
  "(\<And>x. x \<in> set xs \<Longrightarrow> f x = Inr (g x)) \<Longrightarrow> traverse f xs = Inr (map g xs)"
  by (induction xs) auto

lemma map_of_filter_key:
  "map_of (filter (\<lambda>kv. P (fst kv)) xs) k = (if P k then map_of xs k else None)"
  by (induction xs) auto

lemma in_keys_map_of: "k \<in> fst ` set d \<Longrightarrow> \<exists>v. map_of d k = Some v"
  by (metis domD dom_map_of_conv_image_fst)

lemma clean_step_keep:
  assumes "q \<in> fst ` set (qid_to_reldocs s)" "q \<in> fst ` set (qid_to_negdocs s)" "trainable s q"
  shows "clean_step q (s, t) = Inr (s, t + length (rel_of s q) * length (neg_of s q))"
proof -
  obtain r n where "map_of (qid_to_reldocs s) q = Some r" "map_of (qid_to_negdocs s) q = Some n"
    using assms in_keys_map_of by metis
  then show ?thesis using assms(3)
    by (simp add: clean_step_def dict_get_def trainable_def rel_of_def neg_of_def Let_def)
qed

lemma clean_step_drop:
  assumes "q \<in> fst ` set (qid_to_reldocs s)" "q \<in> fst ` set (qid_to_negdocs s)"
     "q \<in> fst ` set (qid_to_docids s)" "\<not> trainable s q"
  shows "clean_step q (s, t) =
           Inr (s\<lparr>qid_to_docids := drop_key q (qid_to_docids s),
                  qid_to_reldocs := drop_key q (qid_to_reldocs s),
                  qid_to_negdocs := drop_key q (qid_to_negdocs s)\<rparr>,
                t + length (rel_of s q) * length (neg_of s q))"
proof -
  obtain r n d where "map_of (qid_to_reldocs s) q = Some r" "map_of (qid_to_negdocs s) q = Some n"
     "map_of (qid_to_docids s) q = Some d"
    using assms in_keys_map_of by metis
  then show ?thesis using assms(4)
    by (simp add: clean_step_def dict_get_def dict_del_def trainable_def rel_of_def neg_of_def Let_def)
qed

lemma map_of_drop_key: "k \<noteq> q \<Longrightarrow> map_of (drop_key q d) k = map_of d k"
  by (induction d) (simp_all add: drop_key_def)

lemma key_survives_drop:
  "k \<in> fst ` set d \<Longrightarrow> k \<noteq> q \<Longrightarrow> k \<in> fst ` set (drop_key q d)"
  by (induction d) (auto simp: drop_key_def)

lemma keys_survive_drop:
  assumes "A \<subseteq> fst ` set d" "q \<notin> A"
  shows "A \<subseteq> fst ` set (drop_key q d)"
proof
  fix k assume "k \<in> A"
  then have "k \<in> fst ` set d" "k \<noteq> q" using assms by auto
  then show "k \<in> fst ` set (drop_key q d)" by (rule key_survives_drop)
qed

lemma filter_keeps_same:
  "trainable s q \<Longrightarrow> filter (keeps (q # qs) s) d = filter (keeps qs s) d"
  by (induction d) (auto simp: keeps_def)

lemma filter_keeps_drop:
  assumes "\<not> trainable s q" "\<And>k. k \<noteq> q \<Longrightarrow> trainable s' k = trainable s k"
  shows "filter (keeps qs s') (drop_key q d) = filter (keeps (q # qs) s) d"
proof (induction d)
  case Nil
  show ?case by (simp add: drop_key_def)
next
  case (Cons kv d)
  show ?case
  proof (cases "fst kv = q")
    case True
    then show ?thesis using Cons assms(1) by (simp add: keeps_def drop_key_def)
  next
    case False
    then show ?thesis using Cons assms(2)[OF False] by (simp add: keeps_def drop_key_def)
  qed
qed

lemma clean_loop_prune:
  assumes "distinct ks"
    "set ks \<subseteq> fst ` set (qid_to_docids s)"
    "set ks \<subseteq> fst ` set (qid_to_reldocs s)"
    "set ks \<subseteq> fst ` set (qid_to_negdocs s)"
  shows "clean_loop ks (s, t) =
           Inr (prune ks s, t + (\<Sum>q\<leftarrow>ks. length (rel_of s q) * length (neg_of s q)))"
  using assms
proof (induction ks arbitrary: s t)
  case Nil
  then show ?case by (simp add: prune_def keeps_def)
next
  case (Cons q qs)
  have qq: "q \<notin> set qs" "distinct qs" using Cons.prems(1) by auto
  have qin: "q \<in> fst ` set (qid_to_docids s)" "q \<in> fst ` set (qid_to_reldocs s)"
      "q \<in> fst ` set (qid_to_negdocs s)"
    using Cons.prems(2,3,4) by simp_all
  have qsin: "set qs \<subseteq> fst ` set (qid_to_docids s)" "set qs \<subseteq> fst ` set (qid_to_reldocs s)"
      "set qs \<subseteq> fst ` set (qid_to_negdocs s)"
    using Cons.prems(2,3,4) by simp_all
  show ?case
  proof (cases "trainable s q")
    case True
    have pr: "prune (q # qs) s = prune qs s"
      unfolding prune_def by (simp only: filter_keeps_same[OF True])
    have step: "clean_step q (s, t) = Inr (s, t + length (rel_of s q) * length (neg_of s q))"
      by (rule clean_step_keep[OF qin(2,3) True])
    have "clean_loop (q # qs) (s, t) = clean_loop qs (s, t + length (rel_of s q) * length (neg_of s q))"
      by (simp only: clean_loop.simps step sum.case)
    also have "\<dots> = Inr (prune qs s, t + length (rel_of s q) * length (neg_of s q)
                         + (\<Sum>k\<leftarrow>qs. length (rel_of s k) * length (neg_of s k)))"
      by (rule Cons.IH[OF qq(2) qsin])
    finally show ?thesis by (simp add: pr)
  next
    case False
    define s' where "s' = s\<lparr>qid_to_docids := drop_key q (qid_to_docids s),
                  qid_to_reldocs := drop_key q (qid_to_reldocs s),
                  qid_to_negdocs := drop_key q (qid_to_negdocs s)\<rparr>"
    have sel: "qid_to_docids s' = drop_key q (qid_to_docids s)"
       "qid_to_reldocs s' = drop_key q (qid_to_reldocs s)"
       "qid_to_negdocs s' = drop_key q (qid_to_negdocs s)"
      by (simp_all add: s'_def)
    have step: "clean_step q (s, t) = Inr (s', t + length (rel_of s q) * length (neg_of s q))"
      unfolding s'_def by (rule clean_step_drop[OF qin(2,3,1) False])
    have same: "rel_of s' k = rel_of s k" "neg_of s' k = neg_of s k" if "k \<noteq> q" for k
      using that by (simp_all add: rel_of_def neg_of_def sel map_of_drop_key)
    have tr: "trainable s' k = trainable s k" if "k \<noteq> q" for k
      using same[OF that] by (simp add: trainable_def)
    have sub: "set qs \<subseteq> fst ` set (qid_to_docids s')" "set qs \<subseteq> fst ` set (qid_to_reldocs s')"
       "set qs \<subseteq> fst ` set (qid_to_negdocs s')"
      unfolding sel
      by (rule keys_survive_drop[OF qsin(1) qq(1)], rule keys_survive_drop[OF qsin(2) qq(1)],
          rule keys_survive_drop[OF qsin(3) qq(1)])
    have sum: "(\<Sum>k\<leftarrow>qs. length (rel_of s' k) * length (neg_of s' k)) =
               (\<Sum>k\<leftarrow>qs. length (rel_of s k) * length (neg_of s k))"
    proof (intro arg_cong[where f=sum_list] map_cong refl)
      fix k assume "k \<in> set qs"
      then have "k \<noteq> q" using qq(1) by auto
      then show "length (rel_of s' k) * length (neg_of s' k) = length (rel_of s k) * length (neg_of s k)"
        using same(1)[of k] same(2)[of k] by presburger
    qed
    have f1: "filter (keeps qs s') (qid_to_docids s') = filter (keeps (q # qs) s) (qid_to_docids s)"
      unfolding sel by (rule filter_keeps_drop[OF False tr])
    have f2: "filter (keeps qs s') (qid_to_reldocs s') = filter (keeps (q # qs) s) (qid_to_reldocs s)"
      unfolding sel by (rule filter_keeps_drop[OF False tr])
    have f3: "filter (keeps qs s') (qid_to_negdocs s') = filter (keeps (q # qs) s) (qid_to_negdocs s)"
      unfolding sel by (rule filter_keeps_drop[OF False tr])
    have pr: "prune qs s' = prune (q # qs) s"
      unfolding prune_def f1 f2 f3 by (simp add: s'_def)
    have "clean_loop (q # qs) (s, t) = clean_loop qs (s', t + length (rel_of s q) * length (neg_of s q))"
      by (simp only: clean_loop.simps step sum.case)
    also have "\<dots> = Inr (prune qs s', t + length (rel_of s q) * length (neg_of s q)
                         + (\<Sum>k\<leftarrow>qs. length (rel_of s' k) * length (neg_of s' k)))"
      by (rule Cons.IH[OF qq(2) sub])
    finally show ?thesis by (simp add: pr sum)
  qed
qed

lemma reldocs_entry_judged:
  "qrels (fst e) \<noteq> None \<Longrightarrow> reldocs_entry qrels lvl e = Inr (fst e, rel_docs qrels lvl e)"
  by (auto simp: reldocs_entry_def qrels_get_def rel_docs_def grade_def)

lemma negdocs_entry_judged:
  "qrels (fst e) \<noteq> None \<Longrightarrow> negdocs_entry qrels lvl e = Inr (fst e, neg_docs qrels lvl e)"
  by (auto simp: negdocs_entry_def qrels_get_def neg_docs_def grade_def)

lemma map_of_map_entry:
  "distinct (map fst xs) \<Longrightarrow> e \<in> set xs \<Longrightarrow> map_of (map (\<lambda>e. (fst e, f e)) xs) (fst e) = Some (f e)"
  by (induction xs) (auto simp: rev_image_eqI)

lemma sum_list_filter_zero:
  "(\<And>x. x \<in> set xs \<Longrightarrow> \<not> P x \<Longrightarrow> f x = (0::nat)) \<Longrightarrow>
     sum_list (map f (filter P xs)) = sum_list (map f xs)"
  by (induction xs) auto

lemma prepare_closed_form:
  assumes "distinct (map fst cands)"
  shows "prepare cands qrels lvl =
     Inr \<lparr>qid_to_docids = filter (retained qrels lvl) cands,
          qid_to_reldocs = map (\<lambda>e. (fst e, rel_docs qrels lvl e)) (filter (retained qrels lvl) cands),
          qid_to_negdocs = map (\<lambda>e. (fst e, neg_docs qrels lvl e)) (filter (retained qrels lvl) cands),
          total_samples = 1 + (\<Sum>e\<leftarrow>filter (retained qrels lvl) cands.
                                  length (rel_docs qrels lvl e) * length (neg_docs qrels lvl e))\<rparr>"
proof -
  define kept where "kept = filter (\<lambda>e. qrels (fst e) \<noteq> None) cands"
  define R where "R = map (\<lambda>e. (fst e, rel_docs qrels lvl e)) kept"
  define N where "N = map (\<lambda>e. (fst e, neg_docs qrels lvl e)) kept"
  define s0 where "s0 = \<lparr>qid_to_docids = kept, qid_to_reldocs = R, qid_to_negdocs = N, total_samples = 0\<rparr>"
  define ks where "ks = map fst kept"
  have dk: "distinct ks"
    unfolding ks_def kept_def using assms by (simp add: distinct_map_filter)
  have tR: "traverse (reldocs_entry qrels lvl) kept = Inr R"
    unfolding R_def by (rule traverse_map) (simp add: kept_def reldocs_entry_judged)
  have tN: "traverse (negdocs_entry qrels lvl) kept = Inr N"
    unfolding N_def by (rule traverse_map) (simp add: kept_def negdocs_entry_judged)
  have prep: "prepare cands qrels lvl = clean s0"
    using tR tN by (simp add: prepare_def s0_def kept_def Let_def)
  have keys: "map fst R = ks" "map fst N = ks"
    by (simp_all add: R_def N_def ks_def comp_def)
  have sub: "set ks \<subseteq> fst ` set (qid_to_docids s0)" "set ks \<subseteq> fst ` set (qid_to_reldocs s0)"
     "set ks \<subseteq> fst ` set (qid_to_negdocs s0)"
    using keys by (simp_all add: s0_def ks_def) (metis set_map subset_refl)+
  have loop: "clean_loop ks (s0, 1) =
           Inr (prune ks s0, 1 + (\<Sum>q\<leftarrow>ks. length (rel_of s0 q) * length (neg_of s0 q)))"
    by (rule clean_loop_prune[OF dk sub])
  have rel_of: "rel_of s0 (fst e) = rel_docs qrels lvl e" and neg_of: "neg_of s0 (fst e) = neg_docs qrels lvl e"
    if "e \<in> set kept" for e
    using that dk map_of_map_entry[of kept e "rel_docs qrels lvl"]
      map_of_map_entry[of kept e "neg_docs qrels lvl"]
    by (simp_all add: rel_of_def neg_of_def s0_def R_def N_def ks_def)
  have tr: "trainable s0 (fst e) = retained qrels lvl e" if "e \<in> set kept" for e
    using that rel_of[OF that] neg_of[OF that] by (simp add: trainable_def retained_def kept_def)
  have kp: "keeps ks s0 e = retained qrels lvl e" if "e \<in> set kept" for e
    using that tr[OF that] by (simp add: keeps_def ks_def)
  have fk: "filter (keeps ks s0) kept = filter (retained qrels lvl) cands"
  proof -
    have "filter (keeps ks s0) kept = filter (retained qrels lvl) kept"
      by (rule filter_cong[OF refl]) (rule kp)
    also have "\<dots> = filter (retained qrels lvl) cands"
      unfolding kept_def by (auto simp: retained_def intro!: filter_cong)
    finally show ?thesis .
  qed
  have kfst: "keeps ks s0 (fst e, x) = keeps ks s0 e" for e :: "qid \<times> docid list" and x :: "docid list"
    by (simp add: keeps_def)
  have fR: "filter (keeps ks s0) R =
        map (\<lambda>e. (fst e, rel_docs qrels lvl e)) (filter (retained qrels lvl) cands)"
    unfolding R_def filter_map comp_def kfst using fk by (simp add: keeps_def[abs_def])
  have fN: "filter (keeps ks s0) N =
        map (\<lambda>e. (fst e, neg_docs qrels lvl e)) (filter (retained qrels lvl) cands)"
    unfolding N_def filter_map comp_def kfst using fk by (simp add: keeps_def[abs_def])
  have "(\<Sum>q\<leftarrow>ks. length (rel_of s0 q) * length (neg_of s0 q)) =
        (\<Sum>e\<leftarrow>kept. length (rel_docs qrels lvl e) * length (neg_docs qrels lvl e))"
    unfolding ks_def map_map comp_def
    by (intro arg_cong[where f=sum_list] map_cong refl) (simp add: rel_of neg_of)
  also have "\<dots> = (\<Sum>e\<leftarrow>filter (retained qrels lvl) kept. length (rel_docs qrels lvl e) * length (neg_docs qrels lvl e))"
    by (rule sum_list_filter_zero[symmetric]) (auto simp: retained_def kept_def)
  also have "filter (retained qrels lvl) kept = filter (retained qrels lvl) cands"
    unfolding kept_def by (auto simp: retained_def intro!: filter_cong)
  finally have tot: "(\<Sum>q\<leftarrow>ks. length (rel_of s0 q) * length (neg_of s0 q)) =
       (\<Sum>e\<leftarrow>filter (retained qrels lvl) cands. length (rel_docs qrels lvl e) * length (neg_docs qrels lvl e))" .
  have "clean s0 = Inr ((prune ks s0)\<lparr>total_samples := 1 + (\<Sum>q\<leftarrow>ks. length (rel_of s0 q) * length (neg_of s0 q))\<rparr>)"
    using loop by (simp add: clean_def s0_def ks_def)
  moreover have sel: "qid_to_docids s0 = kept" "qid_to_reldocs s0 = R" "qid_to_negdocs s0 = N"
    by (simp_all add: s0_def)
  have "prune ks s0 = \<lparr>qid_to_docids = filter (retained qrels lvl) cands,
          qid_to_reldocs = map (\<lambda>e. (fst e, rel_docs qrels lvl e)) (filter (retained qrels lvl) cands),
          qid_to_negdocs = map (\<lambda>e. (fst e, neg_docs qrels lvl e)) (filter (retained qrels lvl) cands),
          total_samples = 0\<rparr>"
    unfolding prune_def sel fk fR fN by (simp add: s0_def)
  ultimately show ?thesis
    unfolding prep tot by simp
qed

lemma retained_iff:
  "retained qrels lvl e =
     (qrels (fst e) \<noteq> None
      \<and> (\<exists>d \<in> set (snd e). lvl \<le> grade qrels (fst e) d)
      \<and> (\<exists>d \<in> set (snd e). grade qrels (fst e) d < lvl))"
  by (auto simp: retained_def rel_docs_def neg_docs_def filter_empty_conv)

lemma judged_sum_eq_retained_sum:
  "(\<Sum>e\<leftarrow>filter (\<lambda>e. qrels (fst e) \<noteq> None) cands.
        length (rel_docs qrels lvl e) * length (neg_docs qrels lvl e)) =
   (\<Sum>e\<leftarrow>filter (retained qrels lvl) cands.
        length (rel_docs qrels lvl e) * length (neg_docs qrels lvl e))"
proof (induction cands)
  case Nil
  show ?case by simp
next
  case (Cons e cands)
  show ?case
  proof (cases "retained qrels lvl e")
    case True
    then have "qrels (fst e) \<noteq> None" by (simp add: retained_def)
    then show ?thesis using True Cons by simp
  next
    case False
    then have "qrels (fst e) \<noteq> None \<Longrightarrow>
        length (rel_docs qrels lvl e) * length (neg_docs qrels lvl e) = 0"
      by (auto simp: retained_def)
    then show ?thesis using False Cons by auto
  qed
qed

text \<open>
  C7. For a candidate pool that is a well-formed dictionary, \<open>prepare\<close> returns a
  sampler (no error). The queries it retains are exactly the queries of the pool that
  have judgments, at least one candidate whose grade reaches the relevance level and at
  least one candidate whose grade is below it; every other query of the pool is dropped.
  The relevant and the non-relevant documents of a retained query are its candidates
  with a grade at or above, respectively below, the level. \<open>total_samples\<close> is 1 plus
  the sum of the number of relevant times the number of non-relevant candidates, taken
  over the judged queries of the pool, which is the same as taken over the retained
  queries.
\<close>

theorem prepare_keeps_trainable_queries:
  assumes "distinct (map fst cands)"
  shows "\<exists>s. prepare cands qrels lvl = Inr s
     \<and> qid_to_docids s = filter (retained qrels lvl) cands
     \<and> qid_to_reldocs s = map (\<lambda>e. (fst e, rel_docs qrels lvl e)) (qid_to_docids s)
     \<and> qid_to_negdocs s = map (\<lambda>e. (fst e, neg_docs qrels lvl e)) (qid_to_docids s)
     \<and> (\<forall>e \<in> set (qid_to_docids s).
           e \<in> set cands \<and> qrels (fst e) \<noteq> None
           \<and> (\<exists>d \<in> set (snd e). lvl \<le> grade qrels (fst e) d)
           \<and> (\<exists>d \<in> set (snd e). grade qrels (fst e) d < lvl)
           \<and> dict_get (qid_to_reldocs s) (fst e) = Inr (filter (\<lambda>d. lvl \<le> grade qrels (fst e) d) (snd e))
           \<and> dict_get (qid_to_negdocs s) (fst e) = Inr (filter (\<lambda>d. grade qrels (fst e) d < lvl) (snd e)))
     \<and> (\<forall>e \<in> set cands. e \<notin> set (qid_to_docids s) \<longrightarrow>
           qrels (fst e) = None
           \<or> (\<forall>d \<in> set (snd e). grade qrels (fst e) d < lvl)
           \<or> (\<forall>d \<in> set (snd e). lvl \<le> grade qrels (fst e) d))
     \<and> total_samples s =
           1 + (\<Sum>e\<leftarrow>filter (\<lambda>e. qrels (fst e) \<noteq> None) cands.
                  length (filter (\<lambda>d. lvl \<le> grade qrels (fst e) d) (snd e))
                  * length (filter (\<lambda>d. grade qrels (fst e) d < lvl) (snd e)))
     \<and> total_samples s =
           1 + (\<Sum>e\<leftarrow>qid_to_docids s.
                  length (filter (\<lambda>d. lvl \<le> grade qrels (fst e) d) (snd e))
                  * length (filter (\<lambda>d. grade qrels (fst e) d < lvl) (snd e)))"
proof -
  define F where "F = filter (retained qrels lvl) cands"
  define s where "s = \<lparr>qid_to_docids = F,
          qid_to_reldocs = map (\<lambda>e. (fst e, rel_docs qrels lvl e)) F,
          qid_to_negdocs = map (\<lambda>e. (fst e, neg_docs qrels lvl e)) F,
          total_samples = 1 + (\<Sum>e\<leftarrow>F. length (rel_docs qrels lvl e) * length (neg_docs qrels lvl e))\<rparr>"
  have p: "prepare cands qrels lvl = Inr s"
    unfolding s_def F_def by (rule prepare_closed_form[OF assms])
  have dF: "distinct (map fst F)"
    unfolding F_def using assms by (simp add: distinct_map_filter)
  have c1: "qid_to_docids s = filter (retained qrels lvl) cands"
    by (simp add: s_def F_def)
  have c2: "qid_to_reldocs s = map (\<lambda>e. (fst e, rel_docs qrels lvl e)) (qid_to_docids s)"
    and c3: "qid_to_negdocs s = map (\<lambda>e. (fst e, neg_docs qrels lvl e)) (qid_to_docids s)"
    by (simp_all add: s_def)
  have mr: "map_of (qid_to_reldocs s) (fst e) = Some (rel_docs qrels lvl e)"
    and mn: "map_of (qid_to_negdocs s) (fst e) = Some (neg_docs qrels lvl e)" if "e \<in> set F" for e
    using map_of_map_entry[OF dF that, of "rel_docs qrels lvl"]
      map_of_map_entry[OF dF that, of "neg_docs qrels lvl"]
    by (simp_all add: s_def)
  have c4: "\<forall>e \<in> set (qid_to_docids s).
           e \<in> set cands \<and> qrels (fst e) \<noteq> None
           \<and> (\<exists>d \<in> set (snd e). lvl \<le> grade qrels (fst e) d)
           \<and> (\<exists>d \<in> set (snd e). grade qrels (fst e) d < lvl)
           \<and> dict_get (qid_to_reldocs s) (fst e) = Inr (filter (\<lambda>d. lvl \<le> grade qrels (fst e) d) (snd e))
           \<and> dict_get (qid_to_negdocs s) (fst e) = Inr (filter (\<lambda>d. grade qrels (fst e) d < lvl) (snd e))"
  proof
    fix e assume "e \<in> set (qid_to_docids s)"
    then have eF: "e \<in> set F" by (simp add: s_def)
    then have ec: "e \<in> set cands" and r: "retained qrels lvl e" by (simp_all add: F_def)
    show "e \<in> set cands \<and> qrels (fst e) \<noteq> None
           \<and> (\<exists>d \<in> set (snd e). lvl \<le> grade qrels (fst e) d)
           \<and> (\<exists>d \<in> set (snd e). grade qrels (fst e) d < lvl)
           \<and> dict_get (qid_to_reldocs s) (fst e) = Inr (filter (\<lambda>d. lvl \<le> grade qrels (fst e) d) (snd e))
           \<and> dict_get (qid_to_negdocs s) (fst e) = Inr (filter (\<lambda>d. grade qrels (fst e) d < lvl) (snd e))"
      using ec r[unfolded retained_iff] mr[OF eF] mn[OF eF]
      by (simp add: dict_get_def rel_docs_def neg_docs_def)
  qed
  have c5: "\<forall>e \<in> set cands. e \<notin> set (qid_to_docids s) \<longrightarrow>
           qrels (fst e) = None
           \<or> (\<forall>d \<in> set (snd e). grade qrels (fst e) d < lvl)
           \<or> (\<forall>d \<in> set (snd e). lvl \<le> grade qrels (fst e) d)"
  proof (intro ballI impI)
    fix e assume "e \<in> set cands" "e \<notin> set (qid_to_docids s)"
    then have "\<not> retained qrels lvl e" by (simp add: s_def F_def)
    then show "qrels (fst e) = None
           \<or> (\<forall>d \<in> set (snd e). grade qrels (fst e) d < lvl)
           \<or> (\<forall>d \<in> set (snd e). lvl \<le> grade qrels (fst e) d)"
      unfolding retained_iff by (meson not_le)
  qed
  have t: "total_samples s =
       1 + (\<Sum>e\<leftarrow>F. length (rel_docs qrels lvl e) * length (neg_docs qrels lvl e))"
    by (simp add: s_def)
  have c7: "total_samples s =
           1 + (\<Sum>e\<leftarrow>qid_to_docids s.
                  length (filter (\<lambda>d. lvl \<le> grade qrels (fst e) d) (snd e))
                  * length (filter (\<lambda>d. grade qrels (fst e) d < lvl) (snd e)))"
    using t by (simp add: s_def rel_docs_def neg_docs_def)
  have c6: "total_samples s =
           1 + (\<Sum>e\<leftarrow>filter (\<lambda>e. qrels (fst e) \<noteq> None) cands.
                  length (filter (\<lambda>d. lvl \<le> grade qrels (fst e) d) (snd e))
                  * length (filter (\<lambda>d. grade qrels (fst e) d < lvl) (snd e)))"
    using t judged_sum_eq_retained_sum[where qrels=qrels and cands=cands and lvl=lvl]
    by (simp add: F_def rel_docs_def neg_docs_def)
  show ?thesis
    by (intro exI[of _ s] conjI p c1 c2 c3 c4 c5 c6 c7)
qed

text \<open>The end-to-end scenario of the specification, with two further queries that are dropped.\<close>

lemma prepare_demo:
  "prepare demo_cands demo_qrels 1 =
     Inr \<lparr>qid_to_docids = [(''q1'', [''d1'', ''d2''])],
          qid_to_reldocs = [(''q1'', [''d1''])],
          qid_to_negdocs = [(''q1'', [''d2''])],
          total_samples = 2\<rparr>"
  by (simp add: prepare_def demo_cands_def demo_qrels_def reldocs_entry_def negdocs_entry_def
      qrels_get_def clean_def clean_step_def dict_get_def dict_del_def drop_key_def Let_def)

lemma demo_retained:
  "filter (retained demo_qrels 1) demo_cands = [(''q1'', [''d1'', ''d2''])]"
  by (simp add: retained_def rel_docs_def neg_docs_def grade_def demo_qrels_def demo_cands_def)

lemma demo_rel_neg:
  "rel_docs demo_qrels 1 (''q1'', [''d1'', ''d2'']) = [''d1'']"
  "neg_docs demo_qrels 1 (''q1'', [''d1'', ''d2'']) = [''d2'']"
  by (simp_all add: rel_docs_def neg_docs_def grade_def demo_qrels_def)

theorem prepare_keeps_trainable_queries_witness:
  "distinct (map fst demo_cands) \<and>
   (\<exists>s. prepare demo_cands demo_qrels 1 = Inr s
     \<and> qid_to_docids s = [(''q1'', [''d1'', ''d2''])]
     \<and> qid_to_reldocs s = [(''q1'', [''d1''])]
     \<and> qid_to_negdocs s = [(''q1'', [''d2''])]
     \<and> total_samples s = 2)"
proof -
  have d: "distinct (map fst demo_cands)" by (simp add: demo_cands_def)
  obtain s where s: "prepare demo_cands demo_qrels 1 = Inr s"
    "qid_to_docids s = filter (retained demo_qrels 1) demo_cands"
    "qid_to_reldocs s = map (\<lambda>e. (fst e, rel_docs demo_qrels 1 e)) (qid_to_docids s)"
    "qid_to_negdocs s = map (\<lambda>e. (fst e, neg_docs demo_qrels 1 e)) (qid_to_docids s)"
    "total_samples s =
           1 + (\<Sum>e\<leftarrow>qid_to_docids s.
                  length (filter (\<lambda>d. 1 \<le> grade demo_qrels (fst e) d) (snd e))
                  * length (filter (\<lambda>d. grade demo_qrels (fst e) d < 1) (snd e)))"
    using prepare_keeps_trainable_queries[OF d, of demo_qrels 1] by blast
  have k: "qid_to_docids s = [(''q1'', [''d1'', ''d2''])]"
    using s(2) by (simp add: demo_retained)
  have r: "qid_to_reldocs s = [(''q1'', [''d1''])]" and n: "qid_to_negdocs s = [(''q1'', [''d2''])]"
    using s(3,4) by (simp_all add: k demo_rel_neg)
  have t: "total_samples s = 2"
    using s(5) demo_rel_neg unfolding k by (simp add: rel_docs_def neg_docs_def)
  have "\<exists>s. prepare demo_cands demo_qrels 1 = Inr s
     \<and> qid_to_docids s = [(''q1'', [''d1'', ''d2''])]
     \<and> qid_to_reldocs s = [(''q1'', [''d1''])]
     \<and> qid_to_negdocs s = [(''q1'', [''d2''])]
     \<and> total_samples s = 2"
    by (intro exI[of _ s] conjI s(1) k r n t)
  then show ?thesis using d by blast
qed

section \<open>Sample generators: missing documents\<close>

lemma pred_docs_ok:
  "(\<And>d. d \<in> set ds \<Longrightarrow> pred_sample ext s q d = Inr (f d)) \<Longrightarrow>
     pred_docs ext s q ds = (map (\<lambda>d. Yield (f d)) ds, None)"
  by (induction ds) simp_all

lemma pred_queries_ok:
  "(\<And>e. e \<in> set pool \<Longrightarrow> pred_docs ext s (fst e) (snd e) = (g e, None)) \<Longrightarrow>
     pred_queries ext s pool = (concat (map g pool), None)"
  by (induction pool) simp_all

lemma pred_docs_append:
  "pred_docs ext s q ds = (evs, None) \<Longrightarrow>
     pred_docs ext s q (ds @ ds') = (evs @ fst (pred_docs ext s q ds'), snd (pred_docs ext s q ds'))"
proof (induction ds arbitrary: evs)
  case Nil
  then show ?case by simp
next
  case (Cons d ds)
  show ?case
  proof (cases "pred_sample ext s q d")
    case (Inl e)
    then show ?thesis using Cons.prems by (simp split: if_splits)
  next
    case (Inr i)
    then have tl: "pred_docs ext s q ds = (tl evs, None)" and hd: "evs = Yield i # tl evs"
      using Cons.prems by (auto simp: prod_eq_iff)
    show ?thesis using Cons.IH[OF tl] Inr hd by (simp add: prod_eq_iff)
  qed
qed

lemma pred_queries_append:
  "pred_queries ext s pre = (evs, None) \<Longrightarrow>
     pred_queries ext s (pre @ post) = (evs @ fst (pred_queries ext s post), snd (pred_queries ext s post))"
proof (induction pre arbitrary: evs)
  case Nil
  then show ?case by simp
next
  case (Cons e pre)
  show ?case
  proof (cases "snd (pred_docs ext s (fst e) (snd e))")
    case (Some err)
    then show ?thesis using Cons.prems by simp
  next
    case None
    then have tl: "pred_queries ext s pre = (fst (pred_queries ext s pre), None)"
      and ev: "evs = fst (pred_docs ext s (fst e) (snd e)) @ fst (pred_queries ext s pre)"
      using Cons.prems by (auto simp: prod_eq_iff)
    show ?thesis using Cons.IH[OF tl] None ev by (simp add: prod_eq_iff)
  qed
qed

lemma pred_docs_missing:
  assumes "pred_sample ext s q d = Inl MissingDocError" "pred_docs ext s q ds = (devs, None)"
  shows "pred_docs ext s q (ds @ d # ds') = (devs @ [Log_error q d], Some MissingDocError)"
  using pred_docs_append[OF assms(2), of "d # ds'"] assms(1) by simp

text \<open>
  C8. When the extractor raises MissingDocError for the drawn triple, the training triplet
  sampler logs a warning, yields nothing for that triple and goes on with the next query
  of the pass; when it raises MissingDocError for a (query, document) pair of the
  prediction sampler, the error is logged and raised again: the trace ends there with
  MissingDocError, and no later document or query is visited.
\<close>

theorem missing_doc_policy:
  assumes "draw_triple R s q r = Inr (pos, neg, r')"
    and "ext q pos (Some neg) [1, 0] = Inl MissingDocError"
    and "pred_queries pext s pre = (pevs, None)"
    and "pred_docs pext s pq ds = (devs, None)"
    and "pred_sample pext s pq d = Inl MissingDocError"
  shows "triplet_pass R ext s (q # qs) r =
           (Log_warning q pos neg # fst (triplet_pass R ext s qs r'), snd (triplet_pass R ext s qs r'))
       \<and> pred_queries pext s (pre @ (pq, ds @ d # ds') # post) =
           (pevs @ devs @ [Log_error pq d], Some MissingDocError)"
proof
  show "triplet_pass R ext s (q # qs) r =
           (Log_warning q pos neg # fst (triplet_pass R ext s qs r'), snd (triplet_pass R ext s qs r'))"
    using assms(1,2) by simp
  have "pred_docs pext s pq (ds @ d # ds') = (devs @ [Log_error pq d], Some MissingDocError)"
    by (rule pred_docs_missing[OF assms(5,4)])
  then have "pred_queries pext s ((pq, ds @ d # ds') # post) = (devs @ [Log_error pq d], Some MissingDocError)"
    by simp
  then show "pred_queries pext s (pre @ (pq, ds @ d # ds') # post) =
           (pevs @ devs @ [Log_error pq d], Some MissingDocError)"
    using pred_queries_append[OF assms(3), of "(pq, ds @ d # ds') # post"] by simp
qed

theorem missing_doc_policy_witness:
  "draw_triple first_random demo_sampler ''q1'' () = Inr (''d1'', ''d2'', ())
   \<and> sparse_ext ''q1'' ''d1'' (Some ''d2'') [1, 0] = Inl MissingDocError
   \<and> pred_queries sparse_ext demo_sampler [] = ([], None)
   \<and> pred_docs sparse_ext demo_sampler ''q1'' [''d1''] = ([Yield (''q1'', ''d1'', None, [0, 1])], None)
   \<and> pred_sample sparse_ext demo_sampler ''q1'' ''d2'' = Inl MissingDocError
   \<and> triplet_pass first_random sparse_ext demo_sampler [''q1'', ''q1''] () =
        ([Log_warning ''q1'' ''d1'' ''d2'', Log_warning ''q1'' ''d1'' ''d2''], Inr ())
   \<and> pred_queries sparse_ext demo_sampler [(''q1'', [''d1'', ''d2'', ''d1'']), (''q1'', [''d1''])] =
        ([Yield (''q1'', ''d1'', None, [0, 1]), Log_error ''q1'' ''d2''], Some MissingDocError)"
proof -
  have a: "draw_triple first_random demo_sampler ''q1'' () = Inr (''d1'', ''d2'', ())"
    by (simp add: draw_triple_def random_choice_def dict_get_def demo_sampler_def first_random_def)
  have b: "sparse_ext ''q1'' ''d1'' (Some ''d2'') [1, 0] = Inl MissingDocError"
    by (simp add: sparse_ext_def)
  have c: "pred_queries sparse_ext demo_sampler [] = ([], None)" by simp
  have e: "pred_sample sparse_ext demo_sampler ''q1'' ''d2'' = Inl MissingDocError"
    by (simp add: pred_sample_def dict_get_def demo_sampler_def sparse_ext_def)
  have d: "pred_docs sparse_ext demo_sampler ''q1'' [''d1''] = ([Yield (''q1'', ''d1'', None, [0, 1])], None)"
    by (simp add: pred_sample_def dict_get_def demo_sampler_def sparse_ext_def)
  have t1: "triplet_pass first_random sparse_ext demo_sampler [''q1''] () =
      ([Log_warning ''q1'' ''d1'' ''d2''], Inr ())"
    using a b by simp
  show ?thesis
    using a b c d e t1
      missing_doc_policy[where R=first_random and ext=sparse_ext and pext=sparse_ext
        and s=demo_sampler and q="''q1''" and qs="[''q1'']" and ds'="[''d1'']"
        and post="[(''q1'', [''d1''])]", OF a b c d e]
    by simp
qed

section \<open>The prediction sampler\<close>

lemma pred_sample_prepared:
  assumes "map_of (qid_to_reldocs s) (fst e) = Some (rel_docs qrels lvl e)" "d \<in> set (snd e)"
  shows "pred_sample ext s (fst e) d = ext (fst e) d None (pred_label qrels lvl (fst e) d)"
  using assms by (simp add: pred_sample_def dict_get_def rel_docs_def pred_label_def)

text \<open>
  C2, as amended. For a candidate pool that is a well-formed dictionary and an extractor
  that has features for its documents, the prediction sampler makes one finite pass over
  the pool that \<open>prepare\<close> retained, that is over the queries that have judgments and
  at least one relevant and one non-relevant candidate, each with its full, not
  relevance-filtered, list of documents: it yields one instance per listed document, in
  order, labelled [0,1] when the document's grade reaches the relevance level and [1,0]
  otherwise, and ends without error.
\<close>

theorem pred_sampler_single_pass:
  assumes "distinct (map fst cands)"
    and "\<forall>e \<in> set cands. \<forall>d \<in> set (snd e). \<forall>l. ext (fst e) d None l = Inr (inst (fst e) d l)"
  shows "\<exists>s. prepare cands qrels lvl = Inr s
     \<and> qid_to_docids s = filter (retained qrels lvl) cands
     \<and> pred_generate_samples ext s =
         (concat (map (pred_events inst qrels lvl) (filter (retained qrels lvl) cands)), None)"
proof -
  define F where "F = filter (retained qrels lvl) cands"
  define s where "s = \<lparr>qid_to_docids = F,
          qid_to_reldocs = map (\<lambda>e. (fst e, rel_docs qrels lvl e)) F,
          qid_to_negdocs = map (\<lambda>e. (fst e, neg_docs qrels lvl e)) F,
          total_samples = 1 + (\<Sum>e\<leftarrow>F. length (rel_docs qrels lvl e) * length (neg_docs qrels lvl e))\<rparr>"
  have p: "prepare cands qrels lvl = Inr s"
    unfolding s_def F_def by (rule prepare_closed_form[OF assms(1)])
  have dF: "distinct (map fst F)"
    unfolding F_def using assms(1) by (simp add: distinct_map_filter)
  have docs: "pred_docs ext s (fst e) (snd e) = (pred_events inst qrels lvl e, None)" if e: "e \<in> set F" for e
  proof -
    have mr: "map_of (qid_to_reldocs s) (fst e) = Some (rel_docs qrels lvl e)"
      using map_of_map_entry[OF dF e, of "rel_docs qrels lvl"] by (simp add: s_def)
    have ec: "e \<in> set cands" using e by (simp add: F_def)
    have "pred_sample ext s (fst e) d = Inr (inst (fst e) d (pred_label qrels lvl (fst e) d))"
      if din: "d \<in> set (snd e)" for d
    proof -
      have "ext (fst e) d None l = Inr (inst (fst e) d l)" for l
        using assms(2) ec din by blast
      then show ?thesis
        using pred_sample_prepared[OF mr din, of ext] by simp
    qed
    then show ?thesis
      unfolding pred_events_def by (rule pred_docs_ok)
  qed
  have "pred_queries ext s F = (concat (map (pred_events inst qrels lvl) F), None)"
    by (rule pred_queries_ok) (rule docs)
  then have "pred_generate_samples ext s = (concat (map (pred_events inst qrels lvl) F), None)"
    by (simp add: pred_generate_samples_def s_def)
  moreover have "qid_to_docids s = F" by (simp add: s_def)
  ultimately show ?thesis using p unfolding F_def by blast
qed

lemma demo_prepare_value: "prepare demo_cands demo_qrels 1 = Inr demo_sampler"
  by (simp add: prepare_demo demo_sampler_def)

lemma demo_pred_trace:
  "pred_generate_samples demo_ext demo_sampler =
     ([Yield (''q1'', ''d1'', None, [0, 1]), Yield (''q1'', ''d2'', None, [1, 0])], None)"
  by (simp add: pred_generate_samples_def pred_sample_def dict_get_def demo_sampler_def demo_ext_def)

text \<open>
  C2 as stated fails: the pool passed to \<open>prepare\<close> holds four (query, document)
  pairs; the pair of \<open>q2\<close> (judged, but without a non-relevant candidate) and the
  pair of \<open>q3\<close> (no judgments) get no instance.
\<close>

theorem pred_sampler_skips_dropped_queries:
  "length (concat (map snd demo_cands)) = 4
   \<and> (''q2'', [''d3'']) \<in> set demo_cands
   \<and> (''q3'', [''d1'']) \<in> set demo_cands
   \<and> prepare demo_cands demo_qrels 1 = Inr demo_sampler
   \<and> pred_generate_samples demo_ext demo_sampler =
        ([Yield (''q1'', ''d1'', None, [0, 1]), Yield (''q1'', ''d2'', None, [1, 0])], None)"
  using demo_prepare_value demo_pred_trace by (simp add: demo_cands_def)

theorem pred_sampler_single_pass_witness:
  "distinct (map fst demo_cands)
   \<and> (\<forall>q d l. demo_ext q d None l = Inr (demo_inst q d l))
   \<and> (\<exists>s. prepare demo_cands demo_qrels 1 = Inr s
     \<and> qid_to_docids s = filter (retained demo_qrels 1) demo_cands
     \<and> pred_generate_samples demo_ext s =
         (concat (map (pred_events demo_inst demo_qrels 1) (filter (retained demo_qrels 1) demo_cands)), None))"
proof -
  have d: "distinct (map fst demo_cands)" by (simp add: demo_cands_def)
  have e: "\<forall>e \<in> set demo_cands. \<forall>d \<in> set (snd e). \<forall>l. demo_ext (fst e) d None l = Inr (demo_inst (fst e) d l)"
    by (simp add: demo_ext_def demo_inst_def)
  have a: "\<forall>q d l. demo_ext q d None l = Inr (demo_inst q d l)"
    by (simp add: demo_ext_def demo_inst_def)
  show ?thesis
    using d a pred_sampler_single_pass[where ext=demo_ext and inst=demo_inst, OF d e, of demo_qrels 1]
    by blast
qed

section \<open>Passage extraction\<close>

lemma passages_loop_in_range:
  "\<forall>i \<in> set starts. i < length doc \<Longrightarrow>
     passages_loop cfg tokenize doc starts acc = Inr (acc @ map (window cfg tokenize doc) starts)"
  by (induction starts arbitrary: acc) (simp_all add: window_def)

lemma window_start_in_doc:
  assumes "0 < stride cfg" "i \<in> set (window_starts cfg doc)"
  shows "i < length doc"
proof -
  have *: "k * stride cfg < length doc" if k: "k < (length doc + stride cfg - 1) div stride cfg" for k
  proof -
    have "Suc k \<le> (length doc + stride cfg - 1) div stride cfg" using k by simp
    then have "Suc k * stride cfg \<le> length doc + stride cfg - 1"
      using assms(1) by (simp add: less_eq_div_iff_mult_less_eq)
    then show ?thesis using assms(1) by simp
  qed
  show ?thesis using assms(2) * by (auto simp: window_starts_def)
qed

lemma get_passages_unfold:
  assumes "0 < stride cfg"
  shows "get_passages_for_doc cfg tokenize sample doc =
     (case select_passages cfg sample (real_passages cfg tokenize doc) of
        Inl e \<Rightarrow> Inl e
      | Inr selected \<Rightarrow> if length selected = numpassages cfg then Inr selected else Inl AssertionError)"
proof -
  have r: "py_range (length doc) (stride cfg) = Inr (window_starts cfg doc)"
    using assms by (simp add: py_range_def window_starts_def)
  have l: "passages_loop cfg tokenize doc (window_starts cfg doc) [] = Inr (real_passages cfg tokenize doc)"
    using passages_loop_in_range[of "window_starts cfg doc" doc cfg tokenize "[]"]
      window_start_in_doc[OF assms, of _ doc] by (simp add: real_passages_def)
  show ?thesis by (simp add: get_passages_for_doc_def r l)
qed

lemma real_passages_empty: "real_passages cfg tokenize [] = []"
  by (cases "stride cfg") (simp_all add: real_passages_def window_starts_def)

text \<open>
  C3. The claim says that an empty document makes passage extraction fail with an
  assertion error. The code does not: \<open>range(0, 0, stride)\<close> is empty, the guard
  with the assertion is never reached, and the result is \<open>numpassages\<close> padding
  passages.
\<close>

theorem empty_document_is_padded:
  "0 < stride cfg \<Longrightarrow>
     get_passages_for_doc cfg tokenize sample [] = Inr (replicate (numpassages cfg) [pad_tok])"
  by (simp add: get_passages_unfold real_passages_empty select_passages_def)

theorem empty_document_is_padded_witness:
  "0 < stride default_config \<and>
   get_passages_for_doc default_config whole_tokenize first_sample [] = Inr (replicate 16 [''[PAD]''])"
  using empty_document_is_padded[of default_config whole_tokenize first_sample]
  by (simp add: default_config_def pad_tok_def)

lemma select_passages_pad:
  "length ps \<le> numpassages cfg \<Longrightarrow>
     select_passages cfg sample ps = Inr (ps @ replicate (numpassages cfg - length ps) [pad_tok])"
  by (simp add: select_passages_def)

lemma select_passages_sample:
  assumes "numpassages cfg < length ps" "2 \<le> numpassages cfg" "sample_contract sample"
  shows "\<exists>middle. select_passages cfg sample ps = Inr (hd ps # middle @ [last ps])
           \<and> length middle = numpassages cfg - 2 \<and> mset middle \<subseteq># mset (interior ps)"
proof -
  obtain first rest where ps: "ps = first # rest"
    using assms(1) by (cases ps) auto
  have len: "numpassages cfg - 2 \<le> length (interior ps)"
    using assms(1) by (simp add: interior_def)
  have k: "nat (int (numpassages cfg) - 2) = numpassages cfg - 2"
    by simp
  have rs: "random_sample sample (interior ps) (int (numpassages cfg) - 2) =
      Inr (sample (interior ps) (numpassages cfg - 2))"
    using assms(2) len by (simp add: random_sample_def k)
  have c: "length (sample (interior ps) (numpassages cfg - 2)) = numpassages cfg - 2"
     "mset (sample (interior ps) (numpassages cfg - 2)) \<subseteq># mset (interior ps)"
    using assms(3) len by (simp_all add: sample_contract_def)
  have "select_passages cfg sample ps =
      Inr (hd ps # sample (interior ps) (numpassages cfg - 2) @ [last ps])"
    using assms(1) rs by (simp add: select_passages_def ps)
  then show ?thesis using c by blast
qed

lemma window_starts_short:
  assumes "doc \<noteq> []" "length doc \<le> stride cfg"
  shows "window_starts cfg doc = [0]"
proof -
  have pos: "0 < length doc" using assms(1) by simp
  have e: "length doc + stride cfg - 1 = (length doc - 1) + stride cfg"
    using assms(1) by (cases doc) simp_all
  have s: "0 < stride cfg" "length doc - 1 < stride cfg"
    using assms by (cases doc; simp)+
  have "(length doc - 1 + stride cfg) div stride cfg = (length doc - 1) div stride cfg + 1"
    using s(1) by (intro div_add_self2) simp
  also have "\<dots> = 1" using s(2) by simp
  finally have "(length doc + stride cfg - 1) div stride cfg = 1"
    unfolding e .
  then show ?thesis by (simp add: window_starts_def)
qed

text \<open>
  C5, as amended. With a positive stride, and with \<open>numpassages\<close> at least 2 or at
  least the number of real passages, \<open>get_passages_for_doc\<close> returns a list of
  exactly \<open>numpassages\<close> passages. When the document yields more real passages than
  \<open>numpassages\<close>, the list is real passage 0, then \<open>numpassages - 2\<close> passages
  drawn without replacement from the interior, then the last real passage. When the
  document is not empty and not longer than one stride, the list is its one real passage
  followed by \<open>numpassages - 1\<close> padding passages.
\<close>

theorem get_passages_for_doc_result:
  assumes "0 < stride cfg"
    and "sample_contract sample"
    and "length (real_passages cfg tokenize doc) \<le> numpassages cfg \<or> 2 \<le> numpassages cfg"
  shows "\<exists>ps. get_passages_for_doc cfg tokenize sample doc = Inr ps
     \<and> length ps = numpassages cfg
     \<and> (numpassages cfg < length (real_passages cfg tokenize doc) \<longrightarrow>
          (\<exists>middle. ps = hd (real_passages cfg tokenize doc) # middle @ [last (real_passages cfg tokenize doc)]
             \<and> length middle = numpassages cfg - 2
             \<and> mset middle \<subseteq># mset (interior (real_passages cfg tokenize doc))))
     \<and> (doc \<noteq> [] \<and> length doc \<le> stride cfg \<longrightarrow>
          ps = tokenize (join_space (take (passagelen cfg) doc)) # replicate (numpassages cfg - 1) [pad_tok])"
proof (cases "numpassages cfg < length (real_passages cfg tokenize doc)")
  case True
  then have two: "2 \<le> numpassages cfg" using assms(3) by auto
  obtain middle where m: "select_passages cfg sample (real_passages cfg tokenize doc) =
         Inr (hd (real_passages cfg tokenize doc) # middle @ [last (real_passages cfg tokenize doc)])"
      "length middle = numpassages cfg - 2" "mset middle \<subseteq># mset (interior (real_passages cfg tokenize doc))"
    using select_passages_sample[OF True two assms(2)] by blast
  have g: "get_passages_for_doc cfg tokenize sample doc =
      Inr (hd (real_passages cfg tokenize doc) # middle @ [last (real_passages cfg tokenize doc)])"
    using m(1,2) two by (simp add: get_passages_unfold[OF assms(1)])
  have short: "\<not> (doc \<noteq> [] \<and> length doc \<le> stride cfg)"
  proof
    assume "doc \<noteq> [] \<and> length doc \<le> stride cfg"
    then have "length (real_passages cfg tokenize doc) = 1"
      by (simp add: real_passages_def window_starts_short)
    then show False using True two by simp
  qed
  show ?thesis using g m(2,3) two short by auto
next
  case False
  then have le: "length (real_passages cfg tokenize doc) \<le> numpassages cfg" by simp
  have g: "get_passages_for_doc cfg tokenize sample doc =
      Inr (real_passages cfg tokenize doc
           @ replicate (numpassages cfg - length (real_passages cfg tokenize doc)) [pad_tok])"
    using le by (simp add: get_passages_unfold[OF assms(1)] select_passages_pad)
  have short: "real_passages cfg tokenize doc = [tokenize (join_space (take (passagelen cfg) doc))]"
    if "doc \<noteq> [] \<and> length doc \<le> stride cfg"
    using that by (simp add: real_passages_def window_starts_short window_def)
  show ?thesis using g le False short by auto
qed

lemma mset_take_subset: "mset (take k xs) \<subseteq># mset xs"
proof -
  have "mset xs = mset (take k xs) + mset (drop k xs)"
    by (metis append_take_drop_id mset_append)
  then show ?thesis by (metis mset_subset_eq_add_left)
qed

lemma first_sample_contract: "sample_contract first_sample"
  by (simp add: sample_contract_def first_sample_def mset_take_subset)


text \<open>
  C5 as stated fails: a document of three words is shorter than one window of four, but
  with stride two it yields two real passages, so the result is not one real passage
  followed by padding.
\<close>

lemma short_doc_two_windows:
  "get_passages_for_doc small_config whole_tokenize first_sample [''a'', ''b'', ''c''] =
     Inr [ [''a b c''], [''c''], [''[PAD]''] ]"
  by (simp add: get_passages_for_doc_def py_range_def small_config_def select_passages_def
      whole_tokenize_def pad_tok_def upt_rec[of 0] upt_rec[of 1] upt_rec[of 2])

theorem short_document_two_real_passages:
  "length [''a'', ''b'', ''c''] < passagelen small_config
   \<and> get_passages_for_doc small_config whole_tokenize first_sample [''a'', ''b'', ''c''] =
       Inr [ [''a b c''], [''c''], [''[PAD]''] ]
   \<and> get_passages_for_doc small_config whole_tokenize first_sample [''a'', ''b'', ''c''] \<noteq>
       Inr (whole_tokenize (join_space (take (passagelen small_config) [''a'', ''b'', ''c'']))
            # replicate (numpassages small_config - 1) [''[PAD]''])"
  unfolding short_doc_two_windows by (simp add: small_config_def whole_tokenize_def numeral_2_eq_2)

theorem get_passages_for_doc_result_witness:
  "0 < stride small_config
   \<and> sample_contract (first_sample :: passage list \<Rightarrow> nat \<Rightarrow> passage list)
   \<and> 2 \<le> numpassages small_config
   \<and> (\<exists>ps. get_passages_for_doc small_config whole_tokenize first_sample
              [''a'', ''b'', ''c'', ''d'', ''e'', ''f'', ''g''] = Inr ps
     \<and> length ps = numpassages small_config)"
proof -
  have a: "0 < stride small_config" and c: "2 \<le> numpassages small_config"
    by (simp_all add: small_config_def)
  have b: "sample_contract (first_sample :: passage list \<Rightarrow> nat \<Rightarrow> passage list)"
    by (rule first_sample_contract)
  show ?thesis
    using a b c
      get_passages_for_doc_result[OF a b disjI2[OF c], of whole_tokenize
        "[''a'', ''b'', ''c'', ''d'', ''e'', ''f'', ''g'']"]
    by blast
qed

section \<open>id2vec\<close>

lemma length_raw_input_line:
  "length (raw_input_line q p) = length q + length p + 3"
  by (simp add: raw_input_line_def)

lemma raw_input_line_nonempty: "raw_input_line q p \<noteq> []"
  by (simp add: raw_input_line_def)

lemma truncate_line_ok:
  "0 < n \<Longrightarrow> truncate_line n (raw_input_line q p) = Inr (truncated_line n q p)"
  by (simp add: truncate_line_def truncated_line_def raw_input_line_nonempty)

lemma length_truncated_line:
  "0 < n \<Longrightarrow> length (truncated_line n q p) = min (length (raw_input_line q p)) n"
  by (auto simp: truncated_line_def)

lemma padlist_short:
  "length xs \<le> n \<Longrightarrow> padlist xs n v = xs @ replicate (n - length xs) v"
  by (simp add: padlist_def)

lemma encode_passage_value:
  assumes "0 < maxseqlen cfg"
  shows "encode_passage cfg tok_id q p =
     Inr (map tok_id (padded_line (maxseqlen cfg) q p),
          replicate (min (length (raw_input_line q p)) (maxseqlen cfg)) 1
            @ replicate (maxseqlen cfg - min (length (raw_input_line q p)) (maxseqlen cfg)) 0,
          replicate (length q + 2) 0 @ replicate (maxseqlen cfg - length q - 2) 1)"
proof -
  have l: "length (truncated_line (maxseqlen cfg) q p) = min (length (raw_input_line q p)) (maxseqlen cfg)"
    by (rule length_truncated_line[OF assms])
  have le: "length (truncated_line (maxseqlen cfg) q p) \<le> maxseqlen cfg"
    using l by simp
  have pl: "padlist (truncated_line (maxseqlen cfg) q p) (maxseqlen cfg) pad_tok = padded_line (maxseqlen cfg) q p"
    using padlist_short[OF le] by (simp add: padded_line_def)
  have lp: "length (padded_line (maxseqlen cfg) q p) = maxseqlen cfg"
    using le by (simp add: padded_line_def)
  show ?thesis
    by (simp add: encode_passage_def truncate_line_ok[OF assms] pl lp l Let_def)
qed


lemma encode_passage_encoded:
  "0 < maxseqlen cfg \<Longrightarrow> encode_passage cfg tok_id q p = Inr (encoded tok_id (maxseqlen cfg) q p)"
  by (simp add: encode_passage_value encoded_def ids_row_def mask_row_def seg_row_def)

lemma traverse_encode:
  "0 < maxseqlen cfg \<Longrightarrow>
     traverse (encode_passage cfg tok_id q) ps = Inr (map (encoded tok_id (maxseqlen cfg) q) ps)"
  by (rule traverse_map) (rule encode_passage_encoded)

lemma map_encoded:
  "fst (encoded tok_id n q p) = ids_row tok_id n q p"
  "fst (snd (encoded tok_id n q p)) = mask_row n q p"
  "snd (snd (encoded tok_id n q p)) = seg_row n q p"
  by (simp_all add: encoded_def)

lemma id2vec_without_negative:
  assumes "0 < maxseqlen cfg" "qid2toks st qid = Some q" "docid2passages st posid = Some pp"
    "negid = None \<or> negid = Some []"
  shows "id2vec cfg tok_id st qid posid negid (Some lab) =
     Inr \<lparr>posdocid = posid,
          posdoc = map (ids_row tok_id (maxseqlen cfg) q) pp,
          posdoc_mask = map (mask_row (maxseqlen cfg) q) pp,
          posdoc_seg = map (seg_row (maxseqlen cfg) q) pp,
          negdocid = [],
          negdoc = zeros (numpassages cfg) (maxseqlen cfg),
          negdoc_mask = zeros (numpassages cfg) (maxseqlen cfg),
          negdoc_seg = zeros (numpassages cfg) (maxseqlen cfg),
          label_rows = replicate (numpassages cfg) lab\<rparr>"
  using assms(2,3,4)
  by (auto simp add: id2vec_def traverse_encode[OF assms(1)] map_encoded Let_def)

lemma id2vec_with_negative:
  assumes "0 < maxseqlen cfg" "qid2toks st qid = Some q" "docid2passages st posid = Some pp"
    "negid \<noteq> []" "docid2passages st negid = Some np" "np \<noteq> []"
  shows "id2vec cfg tok_id st qid posid (Some negid) (Some lab) =
     Inr \<lparr>posdocid = posid,
          posdoc = map (ids_row tok_id (maxseqlen cfg) q) pp,
          posdoc_mask = map (mask_row (maxseqlen cfg) q) pp,
          posdoc_seg = map (seg_row (maxseqlen cfg) q) pp,
          negdocid = negid,
          negdoc = map (ids_row tok_id (maxseqlen cfg) q) np,
          negdoc_mask = map (mask_row (maxseqlen cfg) q) np,
          negdoc_seg = map (seg_row (maxseqlen cfg) q) np,
          label_rows = replicate (numpassages cfg) lab\<rparr>"
  using assms(2-6)
  by (simp add: id2vec_def traverse_encode[OF assms(1)] map_encoded Let_def)


lemma length_padded_line: "0 < n \<Longrightarrow> length (padded_line n q p) = n"
  by (simp add: padded_line_def length_truncated_line)

lemma length_ids_row: "0 < n \<Longrightarrow> length (ids_row tok_id n q p) = n"
  by (simp add: ids_row_def length_padded_line)

lemma length_mask_row: "length (mask_row n q p) = n"
  by (simp add: mask_row_def)

lemma length_seg_row: "length q + 2 \<le> n \<Longrightarrow> length (seg_row n q p) = n"
  by (simp add: seg_row_def)

lemma sum_list_mask_row: "sum_list (mask_row n q p) = int (min (length (raw_input_line q p)) n)"
  by (simp add: mask_row_def sum_list_replicate)

lemma has_shape_map:
  "length ps = rows \<Longrightarrow> (\<And>p. length (f p) = cols) \<Longrightarrow> has_shape (map f ps) rows cols"
  by (simp add: has_shape_def list_all_iff)

lemma has_shape_zeros: "has_shape (zeros rows cols) rows cols"
  by (simp add: has_shape_def zeros_def list_all_iff)

lemma count_nonzero_zeros: "count_nonzero (zeros rows cols) = 0"
proof -
  have "\<forall>v \<in> set (concat (zeros rows cols)). v = 0"
    by (auto simp: zeros_def)
  then show ?thesis
    unfolding count_nonzero_def by (simp add: filter_empty_conv)
qed

text \<open>
  C6, as amended. For a query whose tokens together with \<open>[CLS]\<close> and the first
  \<open>[SEP]\<close> fit into \<open>maxseqlen\<close>, and documents known to the extractor with
  \<open>numpassages\<close> stored passages each, \<open>id2vec\<close> returns token-id, mask and segment
  tensors of shape \<open>[numpassages, maxseqlen]\<close> for the positive and the negative
  document; the token row of each passage is the sequence
  \<open>[CLS] + query + [SEP] + passage + [SEP]\<close>, cut to \<open>maxseqlen\<close> with the last token
  forced to \<open>[SEP]\<close> when it is longer and padded on the right otherwise, and the mask
  of each passage sums to the minimum of the untruncated length and \<open>maxseqlen\<close>.
\<close>

theorem id2vec_shapes:
  assumes "length q + 2 \<le> maxseqlen cfg"
    and "qid2toks st qid = Some q"
    and "docid2passages st posid = Some pp" and "length pp = numpassages cfg"
    and "negid \<noteq> []"
    and "docid2passages st negid = Some np" and "length np = numpassages cfg"
    and "0 < numpassages cfg"
  shows "\<exists>data. id2vec cfg tok_id st qid posid (Some negid) (Some lab) = Inr data
     \<and> has_shape (posdoc data) (numpassages cfg) (maxseqlen cfg)
     \<and> has_shape (posdoc_mask data) (numpassages cfg) (maxseqlen cfg)
     \<and> has_shape (posdoc_seg data) (numpassages cfg) (maxseqlen cfg)
     \<and> has_shape (negdoc data) (numpassages cfg) (maxseqlen cfg)
     \<and> has_shape (negdoc_mask data) (numpassages cfg) (maxseqlen cfg)
     \<and> has_shape (negdoc_seg data) (numpassages cfg) (maxseqlen cfg)
     \<and> posdoc data = map (\<lambda>p. map tok_id (padded_line (maxseqlen cfg) q p)) pp
     \<and> negdoc data = map (\<lambda>p. map tok_id (padded_line (maxseqlen cfg) q p)) np
     \<and> map sum_list (posdoc_mask data) =
           map (\<lambda>p. int (min (length (raw_input_line q p)) (maxseqlen cfg))) pp
     \<and> map sum_list (negdoc_mask data) =
           map (\<lambda>p. int (min (length (raw_input_line q p)) (maxseqlen cfg))) np"
proof -
  have m: "0 < maxseqlen cfg" using assms(1) by simp
  have np: "np \<noteq> []" using assms(7,8) by auto
  define data where "data = \<lparr>posdocid = posid,
          posdoc = map (ids_row tok_id (maxseqlen cfg) q) pp,
          posdoc_mask = map (mask_row (maxseqlen cfg) q) pp,
          posdoc_seg = map (seg_row (maxseqlen cfg) q) pp,
          negdocid = negid,
          negdoc = map (ids_row tok_id (maxseqlen cfg) q) np,
          negdoc_mask = map (mask_row (maxseqlen cfg) q) np,
          negdoc_seg = map (seg_row (maxseqlen cfg) q) np,
          label_rows = replicate (numpassages cfg) lab\<rparr>"
  have r: "id2vec cfg tok_id st qid posid (Some negid) (Some lab) = Inr data"
    unfolding data_def by (rule id2vec_with_negative[OF m assms(2,3,5,6) np])
  have sel: "posdoc data = map (ids_row tok_id (maxseqlen cfg) q) pp"
    "posdoc_mask data = map (mask_row (maxseqlen cfg) q) pp"
    "posdoc_seg data = map (seg_row (maxseqlen cfg) q) pp"
    "negdoc data = map (ids_row tok_id (maxseqlen cfg) q) np"
    "negdoc_mask data = map (mask_row (maxseqlen cfg) q) np"
    "negdoc_seg data = map (seg_row (maxseqlen cfg) q) np"
    by (simp_all add: data_def)
  have s1: "has_shape (posdoc data) (numpassages cfg) (maxseqlen cfg)"
    unfolding sel by (rule has_shape_map[OF assms(4)]) (rule length_ids_row[OF m])
  have s2: "has_shape (posdoc_mask data) (numpassages cfg) (maxseqlen cfg)"
    unfolding sel by (rule has_shape_map[OF assms(4)]) (rule length_mask_row)
  have s3: "has_shape (posdoc_seg data) (numpassages cfg) (maxseqlen cfg)"
    unfolding sel by (rule has_shape_map[OF assms(4)]) (rule length_seg_row[OF assms(1)])
  have s4: "has_shape (negdoc data) (numpassages cfg) (maxseqlen cfg)"
    unfolding sel by (rule has_shape_map[OF assms(7)]) (rule length_ids_row[OF m])
  have s5: "has_shape (negdoc_mask data) (numpassages cfg) (maxseqlen cfg)"
    unfolding sel by (rule has_shape_map[OF assms(7)]) (rule length_mask_row)
  have s6: "has_shape (negdoc_seg data) (numpassages cfg) (maxseqlen cfg)"
    unfolding sel by (rule has_shape_map[OF assms(7)]) (rule length_seg_row[OF assms(1)])
  have t1: "posdoc data = map (\<lambda>p. map tok_id (padded_line (maxseqlen cfg) q p)) pp"
    and t2: "negdoc data = map (\<lambda>p. map tok_id (padded_line (maxseqlen cfg) q p)) np"
    unfolding sel by (simp_all add: ids_row_def[abs_def])
  have u1: "map sum_list (posdoc_mask data) =
           map (\<lambda>p. int (min (length (raw_input_line q p)) (maxseqlen cfg))) pp"
    and u2: "map sum_list (negdoc_mask data) =
           map (\<lambda>p. int (min (length (raw_input_line q p)) (maxseqlen cfg))) np"
    unfolding sel by (simp_all add: sum_list_mask_row)
  show ?thesis
    using r s1 s2 s3 s4 s5 s6 t1 t2 u1 u2 by blast
qed

text \<open>
  C6 as stated fails for a query longer than \<open>maxseqlen - 2\<close> tokens: with
  \<open>maxseqlen = 4\<close> and a query of three tokens the segment rows have five entries,
  so the segment tensors do not have shape \<open>[numpassages, maxseqlen]\<close>.
\<close>

lemma tiny_lines:
  "padded_line 4 [''a'', ''b'', ''c''] [''x''] = [''[CLS]'', ''a'', ''b'', ''[SEP]'']"
  "padded_line 4 [''a'', ''b'', ''c''] [''y'', ''z''] = [''[CLS]'', ''a'', ''b'', ''[SEP]'']"
  by (simp_all add: padded_line_def truncated_line_def raw_input_line_def cls_tok_def sep_tok_def)

lemma tiny_ids:
  "ids_row demo_tok_id 4 [''a'', ''b'', ''c''] [''x''] = [101, 7, 7, 102]"
  "ids_row demo_tok_id 4 [''a'', ''b'', ''c''] [''y'', ''z''] = [101, 7, 7, 102]"
  unfolding ids_row_def tiny_lines by (simp_all add: demo_tok_id_def)

lemma tiny_rows:
  "mask_row 4 [''a'', ''b'', ''c''] [''x''] = [1, 1, 1, 1]"
  "mask_row 4 [''a'', ''b'', ''c''] [''y'', ''z''] = [1, 1, 1, 1]"
  "seg_row 4 [''a'', ''b'', ''c''] p = [0, 0, 0, 0, 0]"
  by (simp_all add: mask_row_def seg_row_def raw_input_line_def numeral_eq_Suc)


lemma id2vec_long_query:
  "id2vec tiny_config demo_tok_id tiny_state ''q1'' ''d1'' (Some ''d2'') (Some [1, 0]) =
     Inr \<lparr>posdocid = ''d1'',
          posdoc = [ [101, 7, 7, 102] ],
          posdoc_mask = [ [1, 1, 1, 1] ],
          posdoc_seg = [ [0, 0, 0, 0, 0] ],
          negdocid = ''d2'',
          negdoc = [ [101, 7, 7, 102] ],
          negdoc_mask = [ [1, 1, 1, 1] ],
          negdoc_seg = [ [0, 0, 0, 0, 0] ],
          label_rows = [ [1, 0] ]\<rparr>"
proof -
  have m: "0 < maxseqlen tiny_config" and m4: "maxseqlen tiny_config = 4"
    and n1: "numpassages tiny_config = 1"
    by (simp_all add: tiny_config_def)
  have q: "qid2toks tiny_state ''q1'' = Some [''a'', ''b'', ''c'']"
    and p: "docid2passages tiny_state ''d1'' = Some [ [''x''] ]"
    and n: "docid2passages tiny_state ''d2'' = Some [ [''y'', ''z''] ]"
    by (simp_all add: tiny_state_def)
  have ne: "''d2'' \<noteq> []" "[ [''y'', ''z''] ] \<noteq> []" by simp_all
  show ?thesis
    unfolding id2vec_with_negative[OF m q p ne(1) n ne(2)] m4 n1 list.map tiny_ids tiny_rows
    by simp
qed

theorem id2vec_long_query_segment_shape:
  "id2vec tiny_config demo_tok_id tiny_state ''q1'' ''d1'' (Some ''d2'') (Some [1, 0]) =
     Inr \<lparr>posdocid = ''d1'',
          posdoc = [ [101, 7, 7, 102] ],
          posdoc_mask = [ [1, 1, 1, 1] ],
          posdoc_seg = [ [0, 0, 0, 0, 0] ],
          negdocid = ''d2'',
          negdoc = [ [101, 7, 7, 102] ],
          negdoc_mask = [ [1, 1, 1, 1] ],
          negdoc_seg = [ [0, 0, 0, 0, 0] ],
          label_rows = [ [1, 0] ]\<rparr>
   \<and> numpassages tiny_config = 1 \<and> maxseqlen tiny_config = 4
   \<and> \<not> has_shape [ [0, 0, 0, 0, 0] ] (numpassages tiny_config) (maxseqlen tiny_config)"
  unfolding id2vec_long_query by (simp add: tiny_config_def has_shape_def)


theorem id2vec_shapes_witness:
  "length [''a''] + 2 \<le> maxseqlen demo_config
   \<and> qid2toks tiny_state ''q2'' = Some [''a'']
   \<and> docid2passages tiny_state ''d1'' = Some [ [''x''] ]
   \<and> docid2passages tiny_state ''d2'' = Some [ [''y'', ''z''] ]
   \<and> 0 < numpassages demo_config
   \<and> (\<exists>data. id2vec demo_config demo_tok_id tiny_state ''q2'' ''d1'' (Some ''d2'') (Some [1, 0]) = Inr data
        \<and> has_shape (posdoc data) (numpassages demo_config) (maxseqlen demo_config)
        \<and> has_shape (posdoc_mask data) (numpassages demo_config) (maxseqlen demo_config)
        \<and> has_shape (posdoc_seg data) (numpassages demo_config) (maxseqlen demo_config)
        \<and> has_shape (negdoc data) (numpassages demo_config) (maxseqlen demo_config)
        \<and> has_shape (negdoc_mask data) (numpassages demo_config) (maxseqlen demo_config)
        \<and> has_shape (negdoc_seg data) (numpassages demo_config) (maxseqlen demo_config))"
proof -
  have a: "length [''a''] + 2 \<le> maxseqlen demo_config" by (simp add: demo_config_def)
  have b: "qid2toks tiny_state ''q2'' = Some [''a'']" by (simp add: tiny_state_def)
  have c: "docid2passages tiny_state ''d1'' = Some [ [''x''] ]" by (simp add: tiny_state_def)
  have d: "docid2passages tiny_state ''d2'' = Some [ [''y'', ''z''] ]" by (simp add: tiny_state_def)
  have e: "0 < numpassages demo_config" by (simp add: demo_config_def)
  have f: "length [ [''x''] ] = numpassages demo_config" "length [ [''y'', ''z''] ] = numpassages demo_config"
    by (simp_all add: demo_config_def)
  have g: "''d2'' \<noteq> []" by simp
  obtain data where data:
    "id2vec demo_config demo_tok_id tiny_state ''q2'' ''d1'' (Some ''d2'') (Some [1, 0]) = Inr data"
    "has_shape (posdoc data) (numpassages demo_config) (maxseqlen demo_config)"
    "has_shape (posdoc_mask data) (numpassages demo_config) (maxseqlen demo_config)"
    "has_shape (posdoc_seg data) (numpassages demo_config) (maxseqlen demo_config)"
    "has_shape (negdoc data) (numpassages demo_config) (maxseqlen demo_config)"
    "has_shape (negdoc_mask data) (numpassages demo_config) (maxseqlen demo_config)"
    "has_shape (negdoc_seg data) (numpassages demo_config) (maxseqlen demo_config)"
    using id2vec_shapes[where tok_id=demo_tok_id and lab="[1, 0]", OF a b c f(1) g d f(2) e]
    by (elim exE conjE)
  have "\<exists>data. id2vec demo_config demo_tok_id tiny_state ''q2'' ''d1'' (Some ''d2'') (Some [1, 0]) = Inr data
        \<and> has_shape (posdoc data) (numpassages demo_config) (maxseqlen demo_config)
        \<and> has_shape (posdoc_mask data) (numpassages demo_config) (maxseqlen demo_config)
        \<and> has_shape (posdoc_seg data) (numpassages demo_config) (maxseqlen demo_config)
        \<and> has_shape (negdoc data) (numpassages demo_config) (maxseqlen demo_config)
        \<and> has_shape (negdoc_mask data) (numpassages demo_config) (maxseqlen demo_config)
        \<and> has_shape (negdoc_seg data) (numpassages demo_config) (maxseqlen demo_config)"
    by (intro exI[of _ data] conjI data)
  then show ?thesis
    by (intro conjI a b c d e)
qed

section \<open>Features without a negative document\<close>

lemma keras_call_cases:
  "keras_call model (pos # neg # query # additional) =
     (if count_nonzero neg = 0 then Inr (Score_pos (model (pos # query # additional)))
      else Inr (Score_pos_and_neg (model (pos # query # additional))
                                  (model (neg # query # additional))))"
  by (simp add: keras_call_def)

text \<open>
  C10. For a query and a positive document known to the extractor (and a positive
  \<open>maxseqlen\<close>), \<open>id2vec\<close> called without a negative document (\<open>None\<close> or the
  empty string) returns \<open>negdocid = ""\<close> and \<open>negdoc\<close>, \<open>negdoc_mask\<close>,
  \<open>negdoc_seg\<close> entirely zero of shape \<open>[numpassages, maxseqlen]\<close>. \<open>KerasModel.call\<close>
  scores the positive document alone exactly when the \<open>negdoc\<close> tensor it receives has
  no nonzero entry, and the (positive, negative) pair otherwise; so it scores the positive
  document alone on these features.
\<close>

theorem id2vec_without_negative_zero_tensors:
  assumes "0 < maxseqlen cfg"
    and "qid2toks st qid = Some q"
    and "docid2passages st posid = Some pp"
    and "negid = None \<or> negid = Some []"
  shows "\<exists>data. id2vec cfg tok_id st qid posid negid (Some lab) = Inr data
     \<and> negdocid data = []
     \<and> negdoc data = replicate (numpassages cfg) (replicate (maxseqlen cfg) 0)
     \<and> negdoc_mask data = replicate (numpassages cfg) (replicate (maxseqlen cfg) 0)
     \<and> negdoc_seg data = replicate (numpassages cfg) (replicate (maxseqlen cfg) 0)
     \<and> has_shape (negdoc data) (numpassages cfg) (maxseqlen cfg)
     \<and> count_nonzero (negdoc data) = 0
     \<and> keras_call model (posdoc data # negdoc data # query # additional) =
           Inr (Score_pos (model (posdoc data # query # additional)))
     \<and> (\<forall>x_pos x_neg.
           (count_nonzero x_neg = 0 \<and>
            keras_call model (x_pos # x_neg # query # additional) =
              Inr (Score_pos (model (x_pos # query # additional))))
           \<or> (count_nonzero x_neg > 0 \<and>
            keras_call model (x_pos # x_neg # query # additional) =
              Inr (Score_pos_and_neg (model (x_pos # query # additional))
                                     (model (x_neg # query # additional)))))"
proof -
  define data where "data = \<lparr>posdocid = posid,
          posdoc = map (ids_row tok_id (maxseqlen cfg) q) pp,
          posdoc_mask = map (mask_row (maxseqlen cfg) q) pp,
          posdoc_seg = map (seg_row (maxseqlen cfg) q) pp,
          negdocid = [],
          negdoc = zeros (numpassages cfg) (maxseqlen cfg),
          negdoc_mask = zeros (numpassages cfg) (maxseqlen cfg),
          negdoc_seg = zeros (numpassages cfg) (maxseqlen cfg),
          label_rows = replicate (numpassages cfg) lab\<rparr>"
  have r: "id2vec cfg tok_id st qid posid negid (Some lab) = Inr data"
    unfolding data_def by (rule id2vec_without_negative[OF assms(1,2,3,4)])
  have sel: "negdocid data = []" "negdoc data = zeros (numpassages cfg) (maxseqlen cfg)"
    "negdoc_mask data = zeros (numpassages cfg) (maxseqlen cfg)"
    "negdoc_seg data = zeros (numpassages cfg) (maxseqlen cfg)"
    by (simp_all add: data_def)
  have z: "negdoc data = replicate (numpassages cfg) (replicate (maxseqlen cfg) 0)"
    "negdoc_mask data = replicate (numpassages cfg) (replicate (maxseqlen cfg) 0)"
    "negdoc_seg data = replicate (numpassages cfg) (replicate (maxseqlen cfg) 0)"
    unfolding sel by (simp_all add: zeros_def)
  have sh: "has_shape (negdoc data) (numpassages cfg) (maxseqlen cfg)"
    unfolding sel by (rule has_shape_zeros)
  have cz: "count_nonzero (negdoc data) = 0"
    unfolding sel by (rule count_nonzero_zeros)
  have k: "keras_call model (posdoc data # negdoc data # query # additional) =
           Inr (Score_pos (model (posdoc data # query # additional)))"
    using cz by (simp add: keras_call_cases)
  have g: "\<forall>x_pos x_neg.
           (count_nonzero x_neg = 0 \<and>
            keras_call model (x_pos # x_neg # query # additional) =
              Inr (Score_pos (model (x_pos # query # additional))))
           \<or> (count_nonzero x_neg > 0 \<and>
            keras_call model (x_pos # x_neg # query # additional) =
              Inr (Score_pos_and_neg (model (x_pos # query # additional))
                                     (model (x_neg # query # additional))))"
    by (simp add: keras_call_cases)
  show ?thesis
    by (intro exI[of _ data] conjI r sel(1) z sh cz k g)
qed

theorem id2vec_without_negative_zero_tensors_witness:
  "0 < maxseqlen demo_config
   \<and> qid2toks tiny_state ''q2'' = Some [''a'']
   \<and> docid2passages tiny_state ''d1'' = Some [ [''x''] ]
   \<and> (\<exists>data. id2vec demo_config demo_tok_id tiny_state ''q2'' ''d1'' None (Some [0, 1]) = Inr data
        \<and> negdocid data = []
        \<and> negdoc data = replicate (numpassages demo_config) (replicate (maxseqlen demo_config) 0)
        \<and> keras_call demo_model [posdoc data, negdoc data, [] ] = Inr (Score_pos (demo_model [posdoc data, [] ])))"
proof -
  have a: "0 < maxseqlen demo_config" by (simp add: demo_config_def)
  have b: "qid2toks tiny_state ''q2'' = Some [''a'']" by (simp add: tiny_state_def)
  have c: "docid2passages tiny_state ''d1'' = Some [ [''x''] ]" by (simp add: tiny_state_def)
  have d: "(None :: docid option) = None \<or> None = Some []" by simp
  obtain data where data:
    "id2vec demo_config demo_tok_id tiny_state ''q2'' ''d1'' None (Some [0, 1]) = Inr data"
    "negdocid data = []"
    "negdoc data = replicate (numpassages demo_config) (replicate (maxseqlen demo_config) 0)"
    "keras_call demo_model (posdoc data # negdoc data # [] # []) =
       Inr (Score_pos (demo_model (posdoc data # [] # [])))"
    using id2vec_without_negative_zero_tensors[where tok_id=demo_tok_id and lab="[0, 1]"
        and model=demo_model and query="[]" and additional="[]", OF a b c d]
    by (elim exE conjE)
  have "\<exists>data. id2vec demo_config demo_tok_id tiny_state ''q2'' ''d1'' None (Some [0, 1]) = Inr data
        \<and> negdocid data = []
        \<and> negdoc data = replicate (numpassages demo_config) (replicate (maxseqlen demo_config) 0)
        \<and> keras_call demo_model [posdoc data, negdoc data, [] ] = Inr (Score_pos (demo_model [posdoc data, [] ]))"
    by (intro exI[of _ data] conjI data)
  then show ?thesis
    by (intro conjI a b c)
qed

section \<open>Weight persistence\<close>

lemma optimizer_fn_neq: "optimizer_fn p \<noteq> p"
proof (cases p rule: rev_cases)
  case Nil
  then show ?thesis by (simp add: optimizer_fn_def)
next
  case (snoc parent name)
  then show ?thesis by (simp add: optimizer_fn_def)
qed


lemma save_weights_ok:
  assumes "dirname fn \<noteq> []"
  shows "\<exists>fs'. save_weights T fs m opt fn = Inr fs'
     \<and> fs_files fs' fn = Some (Pickle (Weights (filter (\<lambda>kv. \<not> unpersisted (fst kv)) (state_dict T m))))
     \<and> fs_files fs' (optimizer_fn fn) = Some (Pickle (Optimizer_state (opt_state_dict T opt)))
     \<and> (\<forall>p. p \<noteq> fn \<and> p \<noteq> optimizer_fn fn \<longrightarrow> fs_files fs' p = fs_files fs p)"
proof -
  obtain fs1 where fs1:
    "(if \<not> os_path_exists fs (dirname fn) then makedirs fs (dirname fn) else Inr fs) = Inr fs1"
    "fs_files fs1 = fs_files fs"
    using assms by (cases "os_path_exists fs (dirname fn)") (simp_all add: makedirs_def)
  show ?thesis
    using optimizer_fn_neq[of fn]
    by (simp add: save_weights_def fs1 write_file_def Let_def)
qed























section \<open>Fast-forward on resume\<close>




















section \<open>The best checkpoint during training\<close>

lemma train_iteration_validated:
  assumes "0 < vf" "niter mod vf = 0"
    and "dev_metrics E niter (fst (fst (single_train_iteration E (ts_model st) (ts_optimizer st)))) metric = Some v"
    and "dev_best_metric st = Neg_inf"
    and "loss_fn paths \<noteq> dev_best_weight_fn paths"
    and "weights_output_path paths \<noteq> []"
    and "dirname (dev_best_weight_fn paths) \<noteq> []"
  shows "\<exists>st'. train_iteration T B E vf paths metric niter st = Inr st'
     \<and> ts_model st' = fst (fst (single_train_iteration E (ts_model st) (ts_optimizer st)))
     \<and> dev_best_metric st' = Neg_inf
     \<and> fs_files (ts_fs st') (dev_best_weight_fn paths) =
         Some (Pickle (Weights (filter (\<lambda>kv. \<not> unpersisted (fst kv)) (state_dict T (ts_model st')))))"
proof -
  define m where "m = fst (fst (single_train_iteration E (ts_model st) (ts_optimizer st)))"
  define opt where "opt = snd (fst (single_train_iteration E (ts_model st) (ts_optimizer st)))"
  define wfn where "wfn = weights_output_path paths @ [fmt_int B (int niter) @ ''.p'']"
  have "dirname wfn \<noteq> []"
    using assms(6) by (simp add: wfn_def dirname_def)
  then obtain fs1 where fs1: "save_weights T (ts_fs st) m opt wfn = Inr fs1"
    using save_weights_ok[of wfn T "ts_fs st" m opt] by blast
  obtain fs2 where fs2: "save_weights T fs1 m opt (dev_best_weight_fn paths) = Inr fs2"
    "fs_files fs2 (dev_best_weight_fn paths) =
       Some (Pickle (Weights (filter (\<lambda>kv. \<not> unpersisted (fst kv)) (state_dict T m))))"
    using save_weights_ok[OF assms(7), of T fs1 m opt] by blast
  have mv: "dev_metrics E niter m metric = Some v"
    using assms(3) by (simp add: m_def)
  show ?thesis
    using assms(1,2,4,5) fs2(2)
    unfolding train_iteration_def Let_def m_def[symmetric] opt_def[symmetric] wfn_def[symmetric]
    by (simp add: fs1 fs2(1) mv write_file_def)
qed

lemma train_iteration_keeps_best_metric:
  "train_iteration T B E vf paths metric niter st = Inr st' \<Longrightarrow>
     dev_best_metric st' = dev_best_metric st"
  by (auto simp: train_iteration_def Let_def split: if_splits sum.splits option.splits)

lemma train_loop_keeps_best_metric:
  "train_loop T B E vf paths metric its st = Inr st' \<Longrightarrow>
     dev_best_metric st' = dev_best_metric st"
proof (induction its arbitrary: st)
  case Nil
  then show ?case by simp
next
  case (Cons n its)
  then show ?case
    by (auto split: sum.splits dest: train_iteration_keeps_best_metric)
qed

lemma train_loop_snoc:
  "train_loop T B E vf paths metric (its @ [n]) st =
     (case train_loop T B E vf paths metric its st of
        Inl e \<Rightarrow> Inl e
      | Inr st' \<Rightarrow> train_iteration T B E vf paths metric n st')"
  by (induction its arbitrary: st) (auto split: sum.splits)

text \<open>
  C1. The claim says that \<open>dev.best\<close> is written only when the target metric of a
  validation run exceeds the best value seen so far. \<open>PytorchTrainer.train\<close> compares
  the metric with \<open>dev_best_metric\<close>, which starts at \<open>-inf\<close> and is never assigned:
  whatever was trained and validated before, a further iteration on the validation
  cadence overwrites \<open>dev.best\<close> with its own weights, whatever its metric is
  (the weights directory and the directory of \<open>dev.best\<close> being named, so that
  \<open>save_weights\<close> does not fail on a bare file name).
\<close>

theorem pytorch_train_overwrites_dev_best:
  assumes "train_from T B E n vf paths metric i0 st = Inr st1" and "i0 \<le> n"
    and "0 < vf" and "n mod vf = 0"
    and "dev_metrics E n (fst (fst (single_train_iteration E (ts_model st1) (ts_optimizer st1)))) metric = Some v"
    and "loss_fn paths \<noteq> dev_best_weight_fn paths"
    and "weights_output_path paths \<noteq> []" and "dirname (dev_best_weight_fn paths) \<noteq> []"
  shows "\<exists>st2. train_from T B E (Suc n) vf paths metric i0 st = Inr st2
     \<and> ts_model st2 = fst (fst (single_train_iteration E (ts_model st1) (ts_optimizer st1)))
     \<and> fs_files (ts_fs st2) (dev_best_weight_fn paths) =
         Some (Pickle (Weights (filter (\<lambda>kv. \<not> unpersisted (fst kv)) (state_dict T (ts_model st2)))))"
proof -
  have l: "train_loop T B E vf paths metric [i0 ..< n] (st\<lparr>dev_best_metric := Neg_inf\<rparr>) = Inr st1"
    using assms(1) by (simp add: train_from_def)
  have b: "dev_best_metric st1 = Neg_inf"
    using train_loop_keeps_best_metric[OF l] by simp
  obtain st2 where st2: "train_iteration T B E vf paths metric n st1 = Inr st2"
     "ts_model st2 = fst (fst (single_train_iteration E (ts_model st1) (ts_optimizer st1)))"
     "fs_files (ts_fs st2) (dev_best_weight_fn paths) =
         Some (Pickle (Weights (filter (\<lambda>kv. \<not> unpersisted (fst kv)) (state_dict T (ts_model st2)))))"
    using train_iteration_validated[OF assms(3,4,5) b assms(6,7,8), of T B] by blast
  have "[i0 ..< Suc n] = [i0 ..< n] @ [n]" using assms(2) by simp
  then have "train_from T B E (Suc n) vf paths metric i0 st = Inr st2"
    by (simp add: train_from_def train_loop_snoc l st2(1))
  then show ?thesis using st2(2,3) by blast
qed

text \<open>
  Two iterations validated at every iteration, with the metric 5 and then 3: after the
  second one \<open>dev.best\<close> holds the weights of the second.
\<close>

lemma demo_first_iteration:
  "\<exists>st1. train_from demo_torch demo_builtins demo_collaborators 1 1 demo_paths ''map'' 0 demo_start = Inr st1
     \<and> ts_model st1 = [(''w'', 1)]
     \<and> fs_files (ts_fs st1) [''run'', ''dev.best''] = Some (Pickle (Weights [(''w'', 1)]))"
proof -
  have m: "dev_metrics demo_collaborators 0
      (fst (fst (single_train_iteration demo_collaborators (ts_model (demo_start\<lparr>dev_best_metric := Neg_inf\<rparr>))
         (ts_optimizer (demo_start\<lparr>dev_best_metric := Neg_inf\<rparr>))))) ''map'' = Some 5"
    by (simp add: demo_collaborators_def)
  have p: "loss_fn demo_paths \<noteq> dev_best_weight_fn demo_paths"
    "weights_output_path demo_paths \<noteq> []" "dirname (dev_best_weight_fn demo_paths) \<noteq> []"
    by (simp_all add: demo_paths_def dirname_def)
  have u: "\<not> unpersisted ''w''" by (simp add: unpersisted_def sublist_Cons_right)
  obtain st1 where st1: "train_iteration demo_torch demo_builtins demo_collaborators 1 demo_paths ''map'' 0
        (demo_start\<lparr>dev_best_metric := Neg_inf\<rparr>) = Inr st1"
     "ts_model st1 = fst (fst (single_train_iteration demo_collaborators
         (ts_model (demo_start\<lparr>dev_best_metric := Neg_inf\<rparr>))
         (ts_optimizer (demo_start\<lparr>dev_best_metric := Neg_inf\<rparr>))))"
     "fs_files (ts_fs st1) (dev_best_weight_fn demo_paths) =
         Some (Pickle (Weights (filter (\<lambda>kv. \<not> unpersisted (fst kv)) (state_dict demo_torch (ts_model st1)))))"
    using train_iteration_validated[OF _ _ m _ p, of 1 demo_torch demo_builtins] by auto
  have ms: "ts_model st1 = [(''w'', 1)]"
    using st1(2) by (simp add: demo_collaborators_def demo_start_def)
  have "fs_files (ts_fs st1) [''run'', ''dev.best''] = Some (Pickle (Weights [(''w'', 1)]))"
    using st1(3) u by (simp add: ms demo_paths_def demo_torch_def plain_torch_def)
  moreover have "train_from demo_torch demo_builtins demo_collaborators 1 1 demo_paths ''map'' 0 demo_start = Inr st1"
    using st1(1) by (simp add: train_from_def)
  ultimately show ?thesis using ms by blast
qed

theorem pytorch_train_overwrites_dev_best_witness:
  "dev_metrics demo_collaborators 0 [(''w'', 1)] ''map'' = Some 5
   \<and> dev_metrics demo_collaborators 1 [(''w'', 2)] ''map'' = Some 3
   \<and> (\<exists>st1. train_from demo_torch demo_builtins demo_collaborators 1 1 demo_paths ''map'' 0 demo_start = Inr st1
         \<and> fs_files (ts_fs st1) [''run'', ''dev.best''] = Some (Pickle (Weights [(''w'', 1)])))
   \<and> (\<exists>st2. train_from demo_torch demo_builtins demo_collaborators 2 1 demo_paths ''map'' 0 demo_start = Inr st2
         \<and> fs_files (ts_fs st2) [''run'', ''dev.best''] = Some (Pickle (Weights [(''w'', 2)])))"
proof -
  obtain st1 where st1:
    "train_from demo_torch demo_builtins demo_collaborators 1 1 demo_paths ''map'' 0 demo_start = Inr st1"
    "ts_model st1 = [(''w'', 1)]"
    "fs_files (ts_fs st1) [''run'', ''dev.best''] = Some (Pickle (Weights [(''w'', 1)]))"
    using demo_first_iteration by blast
  have m0: "dev_metrics demo_collaborators 0 [(''w'', 1)] ''map'' = Some 5"
    and m1: "dev_metrics demo_collaborators 1 [(''w'', 2)] ''map'' = Some 3"
    by (simp_all add: demo_collaborators_def)
  have nxt: "fst (fst (single_train_iteration demo_collaborators (ts_model st1) (ts_optimizer st1))) = [(''w'', 2)]"
    by (simp add: st1(2) demo_collaborators_def)
  have m: "dev_metrics demo_collaborators 1
      (fst (fst (single_train_iteration demo_collaborators (ts_model st1) (ts_optimizer st1)))) ''map'' = Some 3"
    unfolding nxt by (rule m1)
  have p: "loss_fn demo_paths \<noteq> dev_best_weight_fn demo_paths"
    "weights_output_path demo_paths \<noteq> []" "dirname (dev_best_weight_fn demo_paths) \<noteq> []"
    by (simp_all add: demo_paths_def dirname_def)
  have u: "\<not> unpersisted ''w''" by (simp add: unpersisted_def sublist_Cons_right)
  have le: "(0::nat) \<le> 1" "(0::nat) < 1" "(1::nat) mod 1 = 0" by simp_all
  obtain st2 where st2:
    "train_from demo_torch demo_builtins demo_collaborators (Suc 1) 1 demo_paths ''map'' 0 demo_start = Inr st2"
    "ts_model st2 = fst (fst (single_train_iteration demo_collaborators (ts_model st1) (ts_optimizer st1)))"
    "fs_files (ts_fs st2) (dev_best_weight_fn demo_paths) =
         Some (Pickle (Weights (filter (\<lambda>kv. \<not> unpersisted (fst kv)) (state_dict demo_torch (ts_model st2)))))"
    using pytorch_train_overwrites_dev_best[OF st1(1) le m p] by blast
  have s2: "Suc 1 = 2" by simp
  have b2: "fs_files (ts_fs st2) [''run'', ''dev.best''] = Some (Pickle (Weights [(''w'', 2)]))"
    using st2(3) u by (simp add: st2(2) nxt demo_paths_def demo_torch_def plain_torch_def)
  have e1: "\<exists>st1. train_from demo_torch demo_builtins demo_collaborators 1 1 demo_paths ''map'' 0 demo_start = Inr st1
         \<and> fs_files (ts_fs st1) [''run'', ''dev.best''] = Some (Pickle (Weights [(''w'', 1)]))"
    using st1(1,3) by blast
  have e2: "\<exists>st2. train_from demo_torch demo_builtins demo_collaborators 2 1 demo_paths ''map'' 0 demo_start = Inr st2
         \<and> fs_files (ts_fs st2) [''run'', ''dev.best''] = Some (Pickle (Weights [(''w'', 2)]))"
    using st2(1) b2 unfolding s2 by blast
  show ?thesis by (intro conjI m0 m1 e1 e2)
qed

text \<open>
  The sibling path, \<open>TrecCheckpointCallback.on_epoch_end\<close>, records the new best value
  and saves only on a strict improvement.
\<close>

lemma on_epoch_end_improves:
  assumes "metrics ''ndcg_cut_20'' = Some v"
  shows "on_epoch_end cb model metrics =
     Inr (if exceeds v (best_metric cb) then cb\<lparr>best_metric := Best v, dev_best := Some model\<rparr> else cb)"
  using assms by (simp add: on_epoch_end_def)

end
